theory Spec2Isabelle
  imports Complex_Main
begin

section \<open>The data model of the store (database.js)\<close>

text \<open>
  The program keeps its state in SQLite tables and reaches them through prepared
  statements. A table is modelled as the list of its rows in insertion order, a row as a
  record of the columns the balance core reads or writes. Amounts are the REAL columns of
  the schema: every stored amount is a finite double, which is a rational number and is
  carried as such. The addition of a balance update is taken exact; the arithmetic that
  decides a branch on request input (the SQL sum and the subtraction of the availability
  test) is the host's and is a parameter. Timestamps are numbers supplied by the caller
  (the clock is an input of every operation that reads it). Columns that no
  operation of the core reads (name, password hash, profile photo, badges, ban reason,
  ban type and expiry, last login, task texts) are left out.

  The schema declares its references with FOREIGN KEY clauses and the driver enforces
  them (taskDb.delete removes the dependent rows first "to avoid foreign key constraint
  errors"), so an INSERT whose user or task reference has no target row raises and
  inserts nothing. The statements of one operation are not wrapped in a transaction, so
  an operation that raises half way keeps the effects of the statements that ran before:
  every operation returns its outcome together with the store it leaves behind.
\<close>

datatype status = Pending | Approved | Rejected

datatype txn_type =
  TaskReward | Referral | DailyCheckin | TelegramJoin | AdminCredit | AdminDebit | Withdrawal

datatype error =
  ForeignKeyConstraint
  | UniqueConstraint
  | CheckConstraint
  | WithdrawalNotFound
  | WithdrawalAlreadyProcessed
  | FailedToApprove
  | CanOnlyRejectPending
  | FailedToReject
  | NotAuthenticated
  | UserNotFound
  | AccountBanned
  | AllFieldsRequired
  | InvalidPhone
  | UsernameGenerationFailed
  | EmailRegistered
  | PhoneRegistered
  | MinimumWithdrawal
  | InsufficientAvailableBalance
  | ClaimAfter24Hours
  | UserIdAndAmountRequired
  | AmountRequired
  | TypeError
  | RangeError
  | NotNullConstraint

text \<open>
  A number of the host: a finite double, an infinity or NaN.
\<close>

datatype jsnum = NaN | PosInfinity | NegInfinity | Finite rat

text \<open>
  A field of a request body is any JSON value, or undefined when the body does not
  carry it. The test \<open>!v\<close> of the routes holds for the values that are not
  \<open>truthy\<close>.
\<close>

datatype jsval =
  JUndefined | JNull | JBool bool | JNum jsnum | JStr string
  | JArray "jsval list" | JObject "(string \<times> jsval) list"

fun truthy :: "jsval \<Rightarrow> bool" where
  "truthy JUndefined = False"
| "truthy JNull = False"
| "truthy (JBool b) = b"
| "truthy (JNum n) = (n \<noteq> NaN \<and> n \<noteq> Finite 0)"
| "truthy (JStr t) = (t \<noteq> [])"
| "truthy (JArray xs) = True"
| "truthy (JObject kvs) = True"

fun is_collection :: "jsval \<Rightarrow> bool" where
  "is_collection (JArray xs) = True"
| "is_collection (JObject kvs) = True"
| "is_collection v = False"

text \<open>
  What the routes call and the repository does not define is taken from the host:
  \<^item> \<open>parseFloat\<close>, on the values that are not numbers;
  \<^item> \<open>toUpperCase\<close>, String.prototype.toUpperCase;
  \<^item> \<open>float_sub\<close>, the subtraction of two doubles;
  \<^item> \<open>sql_sum\<close>, SUM over a non-empty column of REAL values;
  \<^item> \<open>sql_text\<close>, what a TEXT column stores for a number bound to it, \<open>None\<close>
    for NULL;
  \<^item> \<open>bind_collections\<close>, what the driver binds to two TEXT parameters, or raises,
    when an array or an object is among the two arguments given for them (the driver
    reads an array as a list of parameters and an object as named parameters);
  \<^item> \<open>zone_offset\<close>, the milliseconds that the host's time zone is ahead of UTC at
    a wall-clock time given in seconds.
\<close>

record host =
  parseFloat :: "jsval \<Rightarrow> jsnum"
  toUpperCase :: "string \<Rightarrow> string"
  float_sub :: "rat \<Rightarrow> rat \<Rightarrow> rat"
  sql_sum :: "rat list \<Rightarrow> rat"
  sql_text :: "jsnum \<Rightarrow> string option"
  bind_collections :: "jsval \<Rightarrow> jsval \<Rightarrow> error + string option \<times> string option"
  zone_offset :: "int \<Rightarrow> int"

text \<open>parseFloat(v): a number comes back as itself.\<close>

definition read_number :: "host \<Rightarrow> jsval \<Rightarrow> jsnum" where
  "read_number h v = (case v of JNum n \<Rightarrow> n | _ \<Rightarrow> parseFloat h v)"

text \<open>The comparisons \<open>n < c\<close> and \<open>n > c\<close> of a number with a finite one.\<close>

fun num_less :: "jsnum \<Rightarrow> rat \<Rightarrow> bool" where
  "num_less NaN c = False"
| "num_less PosInfinity c = False"
| "num_less NegInfinity c = True"
| "num_less (Finite x) c = (x < c)"

fun num_greater :: "jsnum \<Rightarrow> rat \<Rightarrow> bool" where
  "num_greater NaN c = False"
| "num_greater PosInfinity c = True"
| "num_greater NegInfinity c = False"
| "num_greater (Finite x) c = (x > c)"

text \<open>
  Binding one value to a TEXT parameter of a statement: the driver binds texts, numbers
  and null, and raises a TypeError for undefined and for a boolean.
\<close>

definition bind_text :: "host \<Rightarrow> jsval \<Rightarrow> error + string option" where
  "bind_text h v =
     (case v of
        JStr t \<Rightarrow> Inr (Some t)
      | JNum n \<Rightarrow> Inr (sql_text h n)
      | JNull \<Rightarrow> Inr None
      | _ \<Rightarrow> Inl TypeError)"

text \<open>Binding the values given for two TEXT parameters that follow one another.\<close>

definition bind_texts ::
  "host \<Rightarrow> jsval \<Rightarrow> jsval \<Rightarrow> error + string option \<times> string option" where
  "bind_texts h a b =
     (if is_collection a \<or> is_collection b then bind_collections h a b
      else (case bind_text h a of
              Inl e \<Rightarrow> Inl e
            | Inr x \<Rightarrow> (case bind_text h b of Inl e \<Rightarrow> Inl e | Inr y \<Rightarrow> Inr (x, y))))"

record user_row =
  u_id :: nat
  u_username :: string
  u_email :: string
  u_phone :: string
  u_upi :: string
  u_balance :: rat
  u_referrer_id :: "nat option"
  u_first_task_completed :: bool
  u_upi_locked :: bool
  u_registered_upi :: string
  u_banned :: bool
  u_referral_code :: string

record task_row =
  k_id :: nat
  k_price :: rat
  k_enabled :: bool

record pending_row =
  p_id :: nat
  p_user_id :: nat
  p_task_id :: nat
  p_status :: status
  p_custom_reason :: string
  p_submitted_at :: nat
  p_reviewed_at :: "nat option"

record txn_row =
  t_user_id :: nat
  t_type :: txn_type
  t_amount :: rat
  t_reason :: string

record checkin_row =
  c_user_id :: nat
  c_day :: nat
  c_amount :: rat
  c_claimed_at :: int

record referral_row =
  r_referrer_id :: nat
  r_referred_id :: nat
  r_reward_amount :: rat

record withdrawal_row =
  w_id :: nat
  w_user_id :: nat
  w_amount :: rat
  w_payment_method :: string
  w_payment_details :: string
  w_status :: status
  w_request_date :: nat
  w_process_date :: "nat option"
  w_admin_notes :: string

text \<open>
  The three \<open>_seq\<close> fields are the AUTOINCREMENT counters of the tables whose row ids
  the operations hand back or look up.
\<close>

record db =
  users :: "user_row list"
  user_seq :: nat
  tasks :: "task_row list"
  pending_tasks :: "pending_row list"
  pending_seq :: nat
  completed_tasks :: "(nat \<times> nat) list"
  transactions :: "txn_row list"
  daily_checkin :: "checkin_row list"
  referrals :: "referral_row list"
  withdrawals :: "withdrawal_row list"
  withdrawal_seq :: nat

type_synonym 'a outcome = "(error + 'a) \<times> db"

definition empty_db :: db where
  "empty_db = \<lparr>users = [], user_seq = 0, tasks = [], pending_tasks = [], pending_seq = 0,
     completed_tasks = [], transactions = [], daily_checkin = [], referrals = [],
     withdrawals = [], withdrawal_seq = 0\<rparr>"

section \<open>userDb: lookups and the ledger\<close>

definition findById :: "db \<Rightarrow> nat \<Rightarrow> user_row option" where
  "findById s uid = find (\<lambda>u. u_id u = uid) (users s)"

definition findByEmail :: "db \<Rightarrow> string \<Rightarrow> user_row option" where
  "findByEmail s e = find (\<lambda>u. u_email u = e) (users s)"

definition findByPhone :: "db \<Rightarrow> string \<Rightarrow> user_row option" where
  "findByPhone s p = find (\<lambda>u. u_phone u = p) (users s)"

definition findByUsername :: "db \<Rightarrow> string \<Rightarrow> user_row option" where
  "findByUsername s n = find (\<lambda>u. u_username u = n) (users s)"

definition findByReferralCode :: "db \<Rightarrow> string \<Rightarrow> user_row option" where
  "findByReferralCode s c = find (\<lambda>u. u_referral_code u = c) (users s)"

text \<open>UPDATE users SET ... WHERE id = ?: every row with that id is rewritten.\<close>

definition update_user :: "nat \<Rightarrow> (user_row \<Rightarrow> user_row) \<Rightarrow> db \<Rightarrow> db" where
  "update_user uid f s = s\<lparr>users := map (\<lambda>u. if u_id u = uid then f u else u) (users s)\<rparr>"

text \<open>INSERT INTO transactions: the user reference must have a target row.\<close>

definition insert_transaction :: "db \<Rightarrow> nat \<Rightarrow> txn_type \<Rightarrow> rat \<Rightarrow> string \<Rightarrow> unit outcome" where
  "insert_transaction s uid ty amt reason =
     (if findById s uid = None then (Inl ForeignKeyConstraint, s)
      else (Inr (), s\<lparr>transactions := transactions s @
              [\<lparr>t_user_id = uid, t_type = ty, t_amount = amt, t_reason = reason\<rparr>]\<rparr>))"

text \<open>
  userDb.updateBalance: the balance UPDATE first (it changes no row and raises nothing
  when the id is unknown), then the INSERT of the transaction with the absolute amount.
\<close>

definition updateBalance :: "db \<Rightarrow> nat \<Rightarrow> rat \<Rightarrow> txn_type \<Rightarrow> string \<Rightarrow> unit outcome" where
  "updateBalance s userId amount ty reason =
     (let s1 = update_user userId (\<lambda>u. u\<lparr>u_balance := u_balance u + amount\<rparr>) s
      in insert_transaction s1 userId ty \<bar>amount\<bar> reason)"

definition lockUpi :: "db \<Rightarrow> nat \<Rightarrow> string \<Rightarrow> db" where
  "lockUpi s userId upiId =
     update_user userId
       (\<lambda>u. u\<lparr>u_upi_locked := True, u_registered_upi := upiId, u_upi := upiId\<rparr>) s"

text \<open>
  userDb.create draws referral codes until one is free, ten times at most; \<open>gen k\<close> is
  the k-th code that generateReferralCode returns. The INSERT is refused when a UNIQUE
  column (username, email, phone, referral code) repeats a stored value.
\<close>

function pick_referral_code :: "db \<Rightarrow> (nat \<Rightarrow> string) \<Rightarrow> nat \<Rightarrow> string" where
  "pick_referral_code s gen attempts =
     (if attempts < 10 \<and> findByReferralCode s (gen attempts) \<noteq> None
      then pick_referral_code s gen (Suc attempts)
      else gen attempts)"
  by pat_completeness auto
termination
  by (relation "measure (\<lambda>(s, gen, attempts). 10 - attempts)") auto

definition userDb_create ::
  "db \<Rightarrow> string \<Rightarrow> string \<Rightarrow> string \<Rightarrow> string \<Rightarrow> (nat \<Rightarrow> string) \<Rightarrow> nat outcome" where
  "userDb_create s username email phone upi gen =
     (let referralCode = pick_referral_code s gen 0
      in if findByUsername s username \<noteq> None \<or> findByEmail s email \<noteq> None
            \<or> findByPhone s phone \<noteq> None \<or> findByReferralCode s referralCode \<noteq> None
         then (Inl UniqueConstraint, s)
         else
           (let newId = Suc (user_seq s)
            in (Inr newId,
                s\<lparr>users := users s @
                     [\<lparr>u_id = newId, u_username = username, u_email = email, u_phone = phone,
                       u_upi = upi, u_balance = 0, u_referrer_id = None,
                       u_first_task_completed = False, u_upi_locked = False,
                       u_registered_upi = [], u_banned = False,
                       u_referral_code = referralCode\<rparr>],
                   user_seq := newId\<rparr>)))"

text \<open>
  userDb.addBulkBonus: for every user that is not banned, the balance UPDATE and the
  INSERT of a transaction of type admin_credit with the absolute amount.
\<close>

fun bulk_loop :: "db \<Rightarrow> nat list \<Rightarrow> rat \<Rightarrow> string \<Rightarrow> unit outcome" where
  "bulk_loop s [] amount reason = (Inr (), s)"
| "bulk_loop s (uid # uids) amount reason =
     (let s1 = update_user uid (\<lambda>u. u\<lparr>u_balance := u_balance u + amount\<rparr>) s
      in case insert_transaction s1 uid AdminCredit \<bar>amount\<bar> reason of
           (Inl e, s2) \<Rightarrow> (Inl e, s2)
         | (Inr _, s2) \<Rightarrow> bulk_loop s2 uids amount reason)"

definition addBulkBonus :: "db \<Rightarrow> rat \<Rightarrow> string \<Rightarrow> nat outcome" where
  "addBulkBonus s amount reason =
     (let uids = map u_id (filter (\<lambda>u. \<not> u_banned u) (users s))
      in case bulk_loop s uids amount reason of
           (Inl e, s') \<Rightarrow> (Inl e, s')
         | (Inr _, s') \<Rightarrow> (Inr (length uids), s'))"

section \<open>pendingTaskDb\<close>

definition task_exists :: "db \<Rightarrow> nat \<Rightarrow> bool" where
  "task_exists s tid = (find (\<lambda>k. k_id k = tid) (tasks s) \<noteq> None)"

definition pendingTaskDb_create :: "db \<Rightarrow> nat \<Rightarrow> nat \<Rightarrow> nat \<Rightarrow> nat outcome" where
  "pendingTaskDb_create s now userId taskId =
     (if findById s userId = None \<or> \<not> task_exists s taskId then (Inl ForeignKeyConstraint, s)
      else
        (let newId = Suc (pending_seq s)
         in (Inr newId,
             s\<lparr>pending_tasks := pending_tasks s @
                  [\<lparr>p_id = newId, p_user_id = userId, p_task_id = taskId, p_status = Pending,
                    p_custom_reason = [], p_submitted_at = now, p_reviewed_at = None\<rparr>],
                pending_seq := newId\<rparr>)))"

text \<open>
  INSERT OR IGNORE INTO completed_tasks: a pair that is already stored is skipped;
  otherwise both references must have a target row.
\<close>

definition insert_completed :: "db \<Rightarrow> nat \<Rightarrow> nat \<Rightarrow> unit outcome" where
  "insert_completed s userId taskId =
     (if (userId, taskId) \<in> set (completed_tasks s) then (Inr (), s)
      else if findById s userId = None \<or> \<not> task_exists s taskId
      then (Inl ForeignKeyConstraint, s)
      else (Inr (), s\<lparr>completed_tasks := completed_tasks s @ [(userId, taskId)]\<rparr>))"

text \<open>
  pendingTaskDb.approve, statement by statement: the status UPDATE (by id alone), the
  completed-task INSERT, the task reward, then the first-task bonus of the referrer. The
  test \<open>user.referrer_id\<close> of the source holds for a stored id other than 0. The reason
  texts are the source's without the currency sign.
\<close>

definition pendingTaskDb_approve ::
  "db \<Rightarrow> nat \<Rightarrow> nat \<Rightarrow> nat \<Rightarrow> nat \<Rightarrow> rat \<Rightarrow> unit outcome" where
  "pendingTaskDb_approve s now pendingId userId taskId price =
     (let s1 = s\<lparr>pending_tasks :=
                  map (\<lambda>p. if p_id p = pendingId
                            then p\<lparr>p_status := Approved, p_reviewed_at := Some now\<rparr> else p)
                      (pending_tasks s)\<rparr>
      in case insert_completed s1 userId taskId of
           (Inl e, s2) \<Rightarrow> (Inl e, s2)
         | (Inr _, s2) \<Rightarrow>
        (case updateBalance s2 userId price TaskReward ''Task completed and approved'' of
           (Inl e, s3) \<Rightarrow> (Inl e, s3)
         | (Inr _, s3) \<Rightarrow>
        (case findById s3 userId of
           None \<Rightarrow> (Inr (), s3)
         | Some user \<Rightarrow>
        (case u_referrer_id user of
           None \<Rightarrow> (Inr (), s3)
         | Some referrer \<Rightarrow>
             if referrer \<noteq> 0 \<and> \<not> u_first_task_completed user then
               (let s4 = update_user userId (\<lambda>u. u\<lparr>u_first_task_completed := True\<rparr>) s3;
                    additionalReward = 15
                in case updateBalance s4 referrer additionalReward Referral
                          ''Referral bonus (first task completed by referred user)'' of
                     (Inl e, s5) \<Rightarrow> (Inl e, s5)
                   | (Inr _, s5) \<Rightarrow>
                       (Inr (),
                        s5\<lparr>referrals :=
                             map (\<lambda>r. if r_referrer_id r = referrer \<and> r_referred_id r = userId
                                       then r\<lparr>r_reward_amount := r_reward_amount r + additionalReward\<rparr>
                                       else r)
                                 (referrals s5)\<rparr>))
             else (Inr (), s3)))))"

definition pendingTaskDb_reject :: "db \<Rightarrow> nat \<Rightarrow> nat \<Rightarrow> string \<Rightarrow> unit outcome" where
  "pendingTaskDb_reject s now pendingId reason =
     (Inr (),
      s\<lparr>pending_tasks :=
           map (\<lambda>p. if p_id p = pendingId
                     then p\<lparr>p_status := Rejected, p_custom_reason := reason,
                            p_reviewed_at := Some now\<rparr>
                     else p)
               (pending_tasks s)\<rparr>)"

text \<open>
  The admin approves one submission after another; a run of approvals for one user, each
  with its time, submission id, task id and price, stops at the first one that raises.
\<close>

fun approve_run :: "db \<Rightarrow> nat \<Rightarrow> (nat \<times> nat \<times> nat \<times> rat) list \<Rightarrow> unit outcome" where
  "approve_run s userId [] = (Inr (), s)"
| "approve_run s userId ((now, pendingId, taskId, price) # rest) =
     (case pendingTaskDb_approve s now pendingId userId taskId price of
        (Inl e, s') \<Rightarrow> (Inl e, s')
      | (Inr _, s') \<Rightarrow> approve_run s' userId rest)"

section \<open>referralDb and the signup route\<close>

definition referralDb_create :: "db \<Rightarrow> nat \<Rightarrow> nat \<Rightarrow> rat \<Rightarrow> unit outcome" where
  "referralDb_create s referrerId referredId rewardAmount =
     (if findById s referrerId = None \<or> findById s referredId = None
      then (Inl ForeignKeyConstraint, s)
      else
        (let s1 = s\<lparr>referrals := referrals s @
                     [\<lparr>r_referrer_id = referrerId, r_referred_id = referredId,
                       r_reward_amount = rewardAmount\<rparr>]\<rparr>;
             s2 = update_user referredId (\<lambda>u. u\<lparr>u_referrer_id := Some referrerId\<rparr>) s1
         in if rewardAmount > 0
            then updateBalance s2 referrerId rewardAmount Referral ''Referral bonus (instant 5)''
            else (Inr (), s2)))"

definition digit_char :: "nat \<Rightarrow> char" where
  "digit_char d = char_of (48 + d)"

function string_of_nat :: "nat \<Rightarrow> string" where
  "string_of_nat n =
     (if n < 10 then [digit_char n] else string_of_nat (n div 10) @ [digit_char (n mod 10)])"
  by pat_completeness auto
termination
  by (relation "measure id") auto

text \<open>
  The username loop of the signup route: \<open>rnd k\<close> is the number that the k-th round
  appends to the part of the email before the at sign.
\<close>

function gen_username :: "db \<Rightarrow> string \<Rightarrow> (nat \<Rightarrow> nat) \<Rightarrow> string \<Rightarrow> nat \<Rightarrow> string \<times> nat" where
  "gen_username s base rnd username attempt =
     (if findByUsername s username \<noteq> None \<and> attempt < 100
      then gen_username s base rnd (base @ string_of_nat (rnd attempt)) (Suc attempt)
      else (username, attempt))"
  by pat_completeness auto
termination
  by (relation "measure (\<lambda>(s, base, rnd, username, attempt). 100 - attempt)") auto

record signup_req =
  q_name :: string
  q_email :: string
  q_phone :: string
  q_password :: string
  q_username :: string
  q_upi :: string
  q_inviteCode :: jsval

text \<open>
  The referral step of the signup route ("Auto-apply referral if invite code exists"),
  run on the store that already holds the new user. The invite code is whatever value
  the body carries: only a text has the method \<open>toUpperCase\<close>, so the call raises a
  TypeError for every other truthy value.
\<close>

definition apply_invite :: "host \<Rightarrow> db \<Rightarrow> nat \<Rightarrow> jsval \<Rightarrow> unit outcome" where
  "apply_invite h s newUserId inviteCode =
     (if truthy inviteCode then
        (case inviteCode of
           JStr code \<Rightarrow>
             (case findByReferralCode s (toUpperCase h code) of
                None \<Rightarrow> (Inr (), s)
              | Some referrer \<Rightarrow>
                  if u_id referrer \<noteq> newUserId \<and> \<not> u_banned referrer
                  then (let instantReward = 5
                        in referralDb_create s (u_id referrer) newUserId instantReward)
                  else (Inr (), s))
         | _ \<Rightarrow> (Inl TypeError, s))
      else (Inr (), s))"

text \<open>
  POST /api/auth/signup. The fields other than the invite code are taken as texts, an
  absent one as the empty text. The checks that come before the user row is written give
  the username and the payment identity to store; an error raised after them is caught
  by the route and answered as a failure, and the store keeps what was written before it.
\<close>

definition signup_checks :: "db \<Rightarrow> signup_req \<Rightarrow> (nat \<Rightarrow> nat) \<Rightarrow> error + (string \<times> string)" where
  "signup_checks s req rnd =
     (if q_name req = [] \<or> q_email req = [] \<or> q_phone req = [] \<or> q_password req = []
      then Inl AllFieldsRequired
      else if length (q_phone req) < 8 then Inl InvalidPhone
      else
        (let baseUsername = takeWhile (\<lambda>c. c \<noteq> CHR ''@'') (q_email req);
             (username, attempt) =
                (if q_username req = [] then gen_username s baseUsername rnd baseUsername 0
                 else (q_username req, 0));
             upi = (if q_upi req = [] then ''pending'' else q_upi req)
         in if q_username req = [] \<and> attempt \<ge> 100 then Inl UsernameGenerationFailed
            else if findByEmail s (q_email req) \<noteq> None then Inl EmailRegistered
            else if findByPhone s (q_phone req) \<noteq> None then Inl PhoneRegistered
            else Inr (username, upi)))"

definition post_auth_signup ::
  "host \<Rightarrow> db \<Rightarrow> signup_req \<Rightarrow> (nat \<Rightarrow> nat) \<Rightarrow> (nat \<Rightarrow> string) \<Rightarrow> nat outcome" where
  "post_auth_signup h s req rnd gen =
     (case signup_checks s req rnd of
        Inl e \<Rightarrow> (Inl e, s)
      | Inr (username, upi) \<Rightarrow>
          (case userDb_create s username (q_email req) (q_phone req) upi gen of
             (Inl e, s1) \<Rightarrow> (Inl e, s1)
           | (Inr newUserId, s1) \<Rightarrow>
               (case apply_invite h s1 newUserId (q_inviteCode req) of
                  (Inl e, s2) \<Rightarrow> (Inl e, s2)
                | (Inr _, s2) \<Rightarrow> (Inr newUserId, s2))))"

section \<open>Session check\<close>

text \<open>
  requireAuth, on the user id the session holds. The sweep that lifts expired bans runs
  before every route; the routes are modelled on the store that sweep has left.
\<close>

definition requireAuth :: "db \<Rightarrow> nat option \<Rightarrow> error + user_row" where
  "requireAuth s sessionUserId =
     (case sessionUserId of
        None \<Rightarrow> Inl NotAuthenticated
      | Some uid \<Rightarrow>
          if uid = 0 then Inl NotAuthenticated
          else (case findById s uid of
                  None \<Rightarrow> Inl UserNotFound
                | Some user \<Rightarrow> if u_banned user then Inl AccountBanned else Inr user))"

section \<open>checkinDb and the claim route\<close>

text \<open>
  The most recent claim of a user (ORDER BY claimed_at DESC LIMIT 1); among rows of the
  same second the earliest inserted is taken. claimed_at holds the seconds of the UTC
  time that CURRENT_TIMESTAMP wrote; the route's clock counts milliseconds.
\<close>

definition getLastCheckin :: "db \<Rightarrow> nat \<Rightarrow> checkin_row option" where
  "getLastCheckin s userId =
     (case filter (\<lambda>c. c_user_id c = userId) (daily_checkin s) of
        [] \<Rightarrow> None
      | c # cs \<Rightarrow>
          Some (foldl (\<lambda>best x. if c_claimed_at best < c_claimed_at x then x else best) c cs))"

definition checkinDb_claim :: "db \<Rightarrow> int \<Rightarrow> nat \<Rightarrow> nat \<Rightarrow> rat \<Rightarrow> unit outcome" where
  "checkinDb_claim s now_ms userId day amount =
     (if findById s userId = None then (Inl ForeignKeyConstraint, s)
      else
        (let s1 = s\<lparr>daily_checkin := daily_checkin s @
                     [\<lparr>c_user_id = userId, c_day = day, c_amount = amount,
                       c_claimed_at = now_ms div 1000\<rparr>]\<rparr>
         in updateBalance s1 userId amount DailyCheckin
              (''Day '' @ string_of_nat day @ '' daily check-in'')))"

text \<open>
  POST /api/checkin/claim; \<open>random\<close> is the value Math.random returns, a number from
  0 up to but not including 1. The answer carries the amount and the day.

  \<open>new Date(lastCheckin.claimed_at)\<close> is given the stored text, which names a UTC time
  and carries no zone mark, and reads it as wall-clock time of the host: the instant it
  returns is the stored one less the host's zone offset. The quotient \<open>hoursDiff\<close> is
  taken exact: a difference of two clock readings below 24 hours stays more than
  1/3600000 short of 24, far more than the rounding of the division can make up.
\<close>

definition post_checkin_claim ::
  "host \<Rightarrow> db \<Rightarrow> int \<Rightarrow> nat option \<Rightarrow> rat \<Rightarrow> (rat \<times> nat) outcome" where
  "post_checkin_claim h s now_ms sessionUserId random =
     (case requireAuth s sessionUserId of
        Inl e \<Rightarrow> (Inl e, s)
      | Inr user \<Rightarrow>
          (let lastCheckin = getLastCheckin s (u_id user);
               tooSoon = (case lastCheckin of
                            None \<Rightarrow> False
                          | Some l \<Rightarrow>
                              (let lastClaimDate = c_claimed_at l * 1000
                                                     - zone_offset h (c_claimed_at l);
                                   hoursDiff = rat_of_int (now_ms - lastClaimDate)
                                                 / (1000 * 60 * 60)
                               in hoursDiff < 24));
               nextDay = (case lastCheckin of
                            None \<Rightarrow> 1
                          | Some l \<Rightarrow> if c_day l \<ge> 7 then 1 else c_day l + 1)
           in if tooSoon then (Inl ClaimAfter24Hours, s)
              else
                (let amount = rat_of_int (\<lfloor>random * 10\<rfloor> + 1)
                 in case checkinDb_claim s now_ms (u_id user) nextDay amount of
                      (Inl e, s') \<Rightarrow> (Inl e, s')
                    | (Inr _, s') \<Rightarrow> (Inr (amount, nextDay), s'))))"

section \<open>withdrawalDb and the wallet route\<close>

definition findWithdrawal :: "db \<Rightarrow> nat \<Rightarrow> withdrawal_row option" where
  "findWithdrawal s wid = find (\<lambda>w. w_id w = wid) (withdrawals s)"

text \<open>
  withdrawalDb.create. The driver binds the parameters first; the INSERT then checks the
  NOT NULL columns (a NaN amount is bound as NULL), the CHECK on the amount and the user
  reference. The amount is \<open>None\<close> for NaN.
\<close>

definition withdrawalDb_create ::
  "host \<Rightarrow> db \<Rightarrow> nat \<Rightarrow> nat \<Rightarrow> rat option \<Rightarrow> jsval \<Rightarrow> jsval \<Rightarrow> nat outcome" where
  "withdrawalDb_create h s now userId amount paymentMethod paymentDetails =
     (case bind_texts h paymentMethod paymentDetails of
        Inl e \<Rightarrow> (Inl e, s)
      | Inr (method, details) \<Rightarrow>
     (case amount of
        None \<Rightarrow> (Inl NotNullConstraint, s)
      | Some a \<Rightarrow>
     (case method of
        None \<Rightarrow> (Inl NotNullConstraint, s)
      | Some m \<Rightarrow>
     (case details of
        None \<Rightarrow> (Inl NotNullConstraint, s)
      | Some d \<Rightarrow>
          if \<not> a > 0 then (Inl CheckConstraint, s)
          else if findById s userId = None then (Inl ForeignKeyConstraint, s)
          else
            (let newId = Suc (withdrawal_seq s)
             in (Inr newId,
                 s\<lparr>withdrawals := withdrawals s @
                      [\<lparr>w_id = newId, w_user_id = userId, w_amount = a,
                        w_payment_method = m, w_payment_details = d,
                        w_status = Pending, w_request_date = now, w_process_date = None,
                        w_admin_notes = []\<rparr>],
                    withdrawal_seq := newId\<rparr>))))))"

text \<open>COALESCE(SUM(amount), 0) over the user's pending requests.\<close>

definition getPendingTotalByUser :: "host \<Rightarrow> db \<Rightarrow> nat \<Rightarrow> rat" where
  "getPendingTotalByUser h s userId =
     (case map w_amount
             (filter (\<lambda>w. w_user_id w = userId \<and> w_status w = Pending) (withdrawals s)) of
        [] \<Rightarrow> 0
      | amounts \<Rightarrow> sql_sum h amounts)"

text \<open>
  withdrawalDb.approve: the two checks on the row read first, the status UPDATE guarded
  by \<open>status = 'pending'\<close> with its count of changed rows, the debit through the ledger,
  then the lock of the payment identity when the user has none yet.
\<close>

definition withdrawalDb_approve :: "db \<Rightarrow> nat \<Rightarrow> nat \<Rightarrow> string \<Rightarrow> unit outcome" where
  "withdrawalDb_approve s now withdrawalId adminNotes =
     (case findWithdrawal s withdrawalId of
        None \<Rightarrow> (Inl WithdrawalNotFound, s)
      | Some withdrawal \<Rightarrow>
          if w_status withdrawal \<noteq> Pending then (Inl WithdrawalAlreadyProcessed, s)
          else
            (let hit = (\<lambda>w. w_id w = withdrawalId \<and> w_status w = Pending);
                 changes = length (filter hit (withdrawals s));
                 s1 = s\<lparr>withdrawals :=
                          map (\<lambda>w. if hit w
                                    then w\<lparr>w_status := Approved, w_process_date := Some now,
                                           w_admin_notes :=
                                             (if adminNotes = [] then ''Approved by admin''
                                              else adminNotes)\<rparr>
                                    else w)
                              (withdrawals s)\<rparr>
             in if changes = 0 then (Inl FailedToApprove, s1)
                else
                  (case updateBalance s1 (w_user_id withdrawal) (- w_amount withdrawal)
                          Withdrawal ''Withdrawal approved'' of
                     (Inl e, s2) \<Rightarrow> (Inl e, s2)
                   | (Inr _, s2) \<Rightarrow>
                       (case findById s2 (w_user_id withdrawal) of
                          None \<Rightarrow> (Inr (), s2)
                        | Some user \<Rightarrow>
                            if \<not> u_upi_locked user
                            then (Inr (), lockUpi s2 (w_user_id withdrawal)
                                            (w_payment_details withdrawal))
                            else (Inr (), s2)))))"

definition withdrawalDb_reject :: "db \<Rightarrow> nat \<Rightarrow> nat \<Rightarrow> string \<Rightarrow> unit outcome" where
  "withdrawalDb_reject s now withdrawalId adminNotes =
     (case findWithdrawal s withdrawalId of
        None \<Rightarrow> (Inl WithdrawalNotFound, s)
      | Some withdrawal \<Rightarrow>
          if w_status withdrawal \<noteq> Pending then (Inl CanOnlyRejectPending, s)
          else
            (let hit = (\<lambda>w. w_id w = withdrawalId \<and> w_status w = Pending);
                 changes = length (filter hit (withdrawals s));
                 s1 = s\<lparr>withdrawals :=
                          map (\<lambda>w. if hit w
                                    then w\<lparr>w_status := Rejected, w_process_date := Some now,
                                           w_admin_notes :=
                                             (if adminNotes = [] then ''Rejected by admin''
                                              else adminNotes)\<rparr>
                                    else w)
                              (withdrawals s)\<rparr>
             in if changes = 0 then (Inl FailedToReject, s1) else (Inr (), s1)))"

text \<open>
  The admin works through withdrawal requests one after another; the route catches what
  an approval raises, so the run goes on with the store the failed approval left.
\<close>

fun approve_withdrawals :: "db \<Rightarrow> (nat \<times> nat \<times> string) list \<Rightarrow> db" where
  "approve_withdrawals s [] = s"
| "approve_withdrawals s ((now, withdrawalId, adminNotes) # rest) =
     approve_withdrawals (snd (withdrawalDb_approve s now withdrawalId adminNotes)) rest"

text \<open>
  POST /api/wallet/withdraw. The three fields are the values the body carries. An
  infinite amount never reaches the INSERT: it is below the minimum or above every
  balance.
\<close>

definition post_wallet_withdraw ::
  "host \<Rightarrow> db \<Rightarrow> nat \<Rightarrow> nat option \<Rightarrow> jsval \<Rightarrow> jsval \<Rightarrow> jsval \<Rightarrow> nat outcome" where
  "post_wallet_withdraw h s now sessionUserId amount paymentMethod paymentDetails =
     (case requireAuth s sessionUserId of
        Inl e \<Rightarrow> (Inl e, s)
      | Inr user \<Rightarrow>
          if \<not> truthy amount \<or> \<not> truthy paymentMethod \<or> \<not> truthy paymentDetails
          then (Inl AllFieldsRequired, s)
          else
            (let withdrawAmount = read_number h amount
             in if num_less withdrawAmount 50 then (Inl MinimumWithdrawal, s)
                else
                  (let pendingTotal = getPendingTotalByUser h s (u_id user);
                       availableBalance = float_sub h (u_balance user) pendingTotal
                   in if num_greater withdrawAmount availableBalance
                      then (Inl InsufficientAvailableBalance, s)
                      else withdrawalDb_create h s now (u_id user)
                             (case withdrawAmount of Finite x \<Rightarrow> Some x | _ \<Rightarrow> None)
                             paymentMethod paymentDetails)))"

section \<open>Admin routes on balances\<close>

text \<open>
  POST /api/admin/user/balance picks the transaction type from the sign of the amount;
  POST /api/admin/bulk-bonus refuses only a missing or zero amount.
\<close>

definition post_admin_user_balance :: "db \<Rightarrow> nat \<Rightarrow> rat option \<Rightarrow> string \<Rightarrow> unit outcome" where
  "post_admin_user_balance s userId amount reason =
     (case amount of
        None \<Rightarrow> (Inl UserIdAndAmountRequired, s)
      | Some a \<Rightarrow>
          if userId = 0 then (Inl UserIdAndAmountRequired, s)
          else
            (let ty = (if a > 0 then AdminCredit else AdminDebit)
             in updateBalance s userId a ty
                  (if reason = [] then ''Admin adjustment'' else reason)))"

definition post_admin_bulk_bonus :: "db \<Rightarrow> rat option \<Rightarrow> string \<Rightarrow> nat outcome" where
  "post_admin_bulk_bonus s amount reason =
     (case amount of
        None \<Rightarrow> (Inl AmountRequired, s)
      | Some a \<Rightarrow>
          if a = 0 then (Inl AmountRequired, s)
          else addBulkBonus s a (if reason = [] then ''Bulk bonus from admin'' else reason))"

section \<open>Reading the ledger\<close>

text \<open>
  A transaction stores the magnitude; its type gives the direction: withdrawal and
  admin_debit take from the balance, every other type adds to it.
\<close>

definition signed_amount :: "txn_row \<Rightarrow> rat" where
  "signed_amount t =
     (if t_type t = Withdrawal \<or> t_type t = AdminDebit then - t_amount t else t_amount t)"

definition ledger_sum :: "db \<Rightarrow> nat \<Rightarrow> rat" where
  "ledger_sum s uid =
     sum_list (map signed_amount (filter (\<lambda>t. t_user_id t = uid) (transactions s)))"

definition balance_of :: "db \<Rightarrow> nat \<Rightarrow> rat option" where
  "balance_of s uid = map_option u_balance (findById s uid)"

definition referral_credits :: "db \<Rightarrow> nat \<Rightarrow> nat" where
  "referral_credits s uid =
     length (filter (\<lambda>t. t_user_id t = uid \<and> t_type t = Referral) (transactions s))"

definition upi_locked_to :: "db \<Rightarrow> nat \<Rightarrow> string \<Rightarrow> bool" where
  "upi_locked_to s uid upi =
     (case findById s uid of None \<Rightarrow> False | Some u \<Rightarrow> u_upi_locked u \<and> u_registered_upi u = upi)"

section \<open>A sample host and a sample store\<close>

text \<open>
  The host of the samples: exact arithmetic (the sample amounts are whole numbers, on
  which the arithmetic of doubles is exact), a clock on UTC, upper case of ASCII letters
  and parseFloat of texts made of digits, NaN for every other text. No sample binds a
  number to a TEXT column or hands an array or an object to the driver. The second host
  differs in its zone alone: five and a half hours ahead of UTC.
\<close>

definition ascii_upper_char :: "char \<Rightarrow> char" where
  "ascii_upper_char c =
     (let n = (of_char c :: nat) in if 97 \<le> n \<and> n \<le> 122 then char_of (n - 32) else c)"

fun digits_value :: "string \<Rightarrow> nat \<Rightarrow> nat option" where
  "digits_value [] acc = Some acc"
| "digits_value (c # cs) acc =
     (let n = (of_char c :: nat)
      in if 48 \<le> n \<and> n \<le> 57 then digits_value cs (acc * 10 + (n - 48)) else None)"

definition digits_parseFloat :: "jsval \<Rightarrow> jsnum" where
  "digits_parseFloat v =
     (case v of
        JStr t \<Rightarrow>
          (if t = [] then NaN
           else (case digits_value t 0 of None \<Rightarrow> NaN | Some n \<Rightarrow> Finite (of_nat n)))
      | JNum n \<Rightarrow> n
      | _ \<Rightarrow> NaN)"

definition sample_host :: host where
  "sample_host =
     \<lparr>parseFloat = digits_parseFloat, toUpperCase = map ascii_upper_char,
      float_sub = (\<lambda>a b. a - b), sql_sum = sum_list, sql_text = (\<lambda>n. None),
      bind_collections = (\<lambda>a b. Inl TypeError),
      zone_offset = (\<lambda>t. 0)\<rparr>"

definition kolkata_host :: host where
  "kolkata_host = sample_host\<lparr>zone_offset := (\<lambda>t. 19800000)\<rparr>"

text \<open>
  Alice (id 1) referred Bob (id 2) at his signup and holds 200; Carol (id 3) is banned.
  Bob has two submissions waiting, Alice three withdrawal requests, one of them refused.
\<close>

definition alice :: user_row where
  "alice = \<lparr>u_id = 1, u_username = ''alice'', u_email = ''alice@mail.in'',
     u_phone = ''9000000001'', u_upi = ''pending'', u_balance = 200, u_referrer_id = None,
     u_first_task_completed = False, u_upi_locked = False, u_registered_upi = [],
     u_banned = False, u_referral_code = ''ALICE234''\<rparr>"

definition bob :: user_row where
  "bob = \<lparr>u_id = 2, u_username = ''bob'', u_email = ''bob@mail.in'',
     u_phone = ''9000000002'', u_upi = ''pending'', u_balance = 0, u_referrer_id = Some 1,
     u_first_task_completed = False, u_upi_locked = False, u_registered_upi = [],
     u_banned = False, u_referral_code = ''BOBBB234''\<rparr>"

definition carol :: user_row where
  "carol = \<lparr>u_id = 3, u_username = ''carol'', u_email = ''carol@mail.in'',
     u_phone = ''9000000003'', u_upi = ''pending'', u_balance = 0, u_referrer_id = None,
     u_first_task_completed = False, u_upi_locked = False, u_registered_upi = [],
     u_banned = True, u_referral_code = ''CAROL234''\<rparr>"

definition shop_db :: db where
  "shop_db =
     \<lparr>users = [alice, bob, carol], user_seq = 3,
      tasks = [\<lparr>k_id = 1, k_price = 20, k_enabled = True\<rparr>,
               \<lparr>k_id = 2, k_price = 30, k_enabled = True\<rparr>],
      pending_tasks =
        [\<lparr>p_id = 1, p_user_id = 2, p_task_id = 1, p_status = Pending, p_custom_reason = [],
          p_submitted_at = 10, p_reviewed_at = None\<rparr>,
         \<lparr>p_id = 2, p_user_id = 2, p_task_id = 2, p_status = Pending, p_custom_reason = [],
          p_submitted_at = 11, p_reviewed_at = None\<rparr>],
      pending_seq = 2, completed_tasks = [],
      transactions =
        [\<lparr>t_user_id = 1, t_type = Referral, t_amount = 5,
          t_reason = ''Referral bonus (instant 5)''\<rparr>,
         \<lparr>t_user_id = 1, t_type = AdminCredit, t_amount = 195, t_reason = ''Admin adjustment''\<rparr>],
      daily_checkin = [],
      referrals = [\<lparr>r_referrer_id = 1, r_referred_id = 2, r_reward_amount = 5\<rparr>],
      withdrawals =
        [\<lparr>w_id = 1, w_user_id = 1, w_amount = 60, w_payment_method = ''upi'',
          w_payment_details = ''alice@upi'', w_status = Pending, w_request_date = 20,
          w_process_date = None, w_admin_notes = []\<rparr>,
         \<lparr>w_id = 2, w_user_id = 1, w_amount = 75, w_payment_method = ''upi'',
          w_payment_details = ''alice@upi'', w_status = Rejected, w_request_date = 21,
          w_process_date = Some 22, w_admin_notes = ''Rejected by admin''\<rparr>,
         \<lparr>w_id = 3, w_user_id = 1, w_amount = 50, w_payment_method = ''upi'',
          w_payment_details = ''other@upi'', w_status = Pending, w_request_date = 23,
          w_process_date = None, w_admin_notes = []\<rparr>],
      withdrawal_seq = 3\<rparr>"

text \<open>The sample store with claims: Bob's latest is day 3, Alice's latest is day 7.\<close>

definition checkin_db :: db where
  "checkin_db = shop_db\<lparr>daily_checkin :=
     [\<lparr>c_user_id = 2, c_day = 3, c_amount = 4, c_claimed_at = 1000\<rparr>,
      \<lparr>c_user_id = 1, c_day = 6, c_amount = 2, c_claimed_at = 500\<rparr>,
      \<lparr>c_user_id = 1, c_day = 7, c_amount = 9, c_claimed_at = 90000\<rparr>]\<rparr>"

text \<open>Dave signs up on the sample store with Alice's code, typed in lower case.\<close>

definition new_dave :: signup_req where
  "new_dave = \<lparr>q_name = ''Dave'', q_email = ''dave@mail.in'', q_phone = ''9000000004'',
     q_password = ''secret'', q_username = [], q_upi = [],
     q_inviteCode = JStr ''alice234''\<rparr>"

text \<open>
  A store reached from the empty one through the routes alone: Alice signs up, the admin
  credits her 100, she requests a withdrawal of 100, and the admin then takes 60 back.
\<close>

definition new_alice :: signup_req where
  "new_alice = \<lparr>q_name = ''Alice'', q_email = ''alice@mail.in'', q_phone = ''9000000001'',
     q_password = ''secret'', q_username = [], q_upi = [], q_inviteCode = JUndefined\<rparr>"

definition overdraft_db :: db where
  "overdraft_db =
     (let s1 = snd (post_auth_signup sample_host empty_db new_alice (\<lambda>k. k)
                      (\<lambda>k. ''ALICE234''));
          s2 = snd (post_admin_user_balance s1 1 (Some 100) []);
          s3 = snd (post_wallet_withdraw sample_host s2 40 (Some 1) (JNum (Finite 100))
                      (JStr ''upi'') (JStr ''alice@upi''));
          s4 = snd (post_admin_user_balance s3 1 (Some (- 60)) ''correction'')
      in s4)"

section \<open>Properties of the ledger\<close>

declare pick_referral_code.simps [simp del]
declare gen_username.simps [simp del]
declare string_of_nat.simps [simp del]

lemmas shop_defs = shop_db_def alice_def bob_def carol_def

lemma find_id_map_upd:
  assumes "\<And>u. u_id (f u) = u_id u"
  shows "find (\<lambda>u. u_id u = k) (map (\<lambda>u. if u_id u = uid then f u else u) xs) =
           (if k = uid then map_option f (find (\<lambda>u. u_id u = k) xs)
            else find (\<lambda>u. u_id u = k) xs)"
  using assms by (induction xs) auto

lemma findById_update_user:
  assumes "\<And>u. u_id (f u) = u_id u"
  shows "findById (update_user uid f s) k =
           (if k = uid then map_option f (findById s k) else findById s k)"
  using assms by (simp add: findById_def update_user_def find_id_map_upd)

lemma update_user_absent:
  "findById s uid = None \<Longrightarrow> update_user uid f s = s"
proof -
  assume "findById s uid = None"
  then have "\<forall>u \<in> set (users s). u_id u \<noteq> uid"
    by (simp add: findById_def find_None_iff)
  then have "map (\<lambda>u. if u_id u = uid then f u else u) (users s) = users s"
    by (induction "users s") (auto simp: map_idI)
  then show ?thesis by (simp add: update_user_def)
qed

lemma update_user_other [simp]:
  "tasks (update_user uid f s) = tasks s"
  "pending_tasks (update_user uid f s) = pending_tasks s"
  "completed_tasks (update_user uid f s) = completed_tasks s"
  "transactions (update_user uid f s) = transactions s"
  "daily_checkin (update_user uid f s) = daily_checkin s"
  "referrals (update_user uid f s) = referrals s"
  "withdrawals (update_user uid f s) = withdrawals s"
  "withdrawal_seq (update_user uid f s) = withdrawal_seq s"
  "user_seq (update_user uid f s) = user_seq s"
  "pending_seq (update_user uid f s) = pending_seq s"
  by (simp_all add: update_user_def)

lemma findById_non_users [simp]:
  "findById (s\<lparr>transactions := t\<rparr>) = findById s"
  "findById (s\<lparr>withdrawals := w\<rparr>) = findById s"
  "findById (s\<lparr>referrals := r\<rparr>) = findById s"
  "findById (s\<lparr>pending_tasks := p\<rparr>) = findById s"
  "findById (s\<lparr>completed_tasks := c\<rparr>) = findById s"
  "findById (s\<lparr>daily_checkin := d\<rparr>) = findById s"
  "findById (s\<lparr>withdrawal_seq := n\<rparr>) = findById s"
  by (simp_all add: findById_def fun_eq_iff)

lemma findById_balance_upd [simp]:
  "findById (update_user uid (\<lambda>u. u\<lparr>u_balance := g u\<rparr>) s) k =
     (if k = uid then map_option (\<lambda>u. u\<lparr>u_balance := g u\<rparr>) (findById s k) else findById s k)"
  by (rule findById_update_user) simp

lemma updateBalance_known:
  assumes "findById s uid = Some u"
  shows "updateBalance s uid a ty rs =
           (Inr (), (update_user uid (\<lambda>u. u\<lparr>u_balance := u_balance u + a\<rparr>) s)
                      \<lparr>transactions := transactions s @
                         [\<lparr>t_user_id = uid, t_type = ty, t_amount = \<bar>a\<bar>, t_reason = rs\<rparr>]\<rparr>)"
  using assms by (simp add: updateBalance_def insert_transaction_def)

lemma updateBalance_absent:
  "findById s uid = None \<Longrightarrow> updateBalance s uid a ty rs = (Inl ForeignKeyConstraint, s)"
  by (simp add: updateBalance_def update_user_absent insert_transaction_def)




section \<open>Approval of withdrawals\<close>


lemma find_hit_filter:
  "find (\<lambda>w. w_id w = wid) xs = Some w \<Longrightarrow> P w \<Longrightarrow> filter (\<lambda>x. w_id x = wid \<and> P x) xs \<noteq> []"
  by (induction xs) (auto split: if_splits)


lemma lockUpi_other [simp]:
  "transactions (lockUpi s uid upi) = transactions s"
  "withdrawals (lockUpi s uid upi) = withdrawals s"
  by (simp_all add: lockUpi_def)

lemma findById_lockUpi:
  "findById (lockUpi s uid upi) k =
     (if k = uid
      then map_option (\<lambda>u. u\<lparr>u_upi_locked := True, u_registered_upi := upi, u_upi := upi\<rparr>)
             (findById s k)
      else findById s k)"
  unfolding lockUpi_def by (rule findById_update_user) simp

text \<open>The store an approval leaves when the request is pending and its user has a row.\<close>

lemma withdrawalDb_approve_pending:
  assumes "findWithdrawal s wid = Some w" "w_status w = Pending"
    and "findById s (w_user_id w) = Some u"
  shows "withdrawalDb_approve s now wid notes =
     (Inr (),
      (if u_upi_locked u then (\<lambda>t. t) else (\<lambda>t. lockUpi t (w_user_id w) (w_payment_details w)))
        ((update_user (w_user_id w) (\<lambda>u. u\<lparr>u_balance := u_balance u + - w_amount w\<rparr>)
           (s\<lparr>withdrawals :=
                map (\<lambda>x. if w_id x = wid \<and> w_status x = Pending
                          then x\<lparr>w_status := Approved, w_process_date := Some now,
                                 w_admin_notes :=
                                   (if notes = [] then ''Approved by admin'' else notes)\<rparr>
                          else x)
                    (withdrawals s)\<rparr>))
         \<lparr>transactions := transactions s @
            [\<lparr>t_user_id = w_user_id w, t_type = Withdrawal, t_amount = \<bar>- w_amount w\<bar>,
              t_reason = ''Withdrawal approved''\<rparr>]\<rparr>))"
proof -
  have hit: "filter (\<lambda>x. w_id x = wid \<and> w_status x = Pending) (withdrawals s) \<noteq> []"
    using assms(1,2) find_hit_filter [of wid "withdrawals s" w "\<lambda>x. w_status x = Pending"]
    by (simp add: findWithdrawal_def)
  show ?thesis
    using assms hit
    by (simp add: withdrawalDb_approve_def Let_def updateBalance_known [where u=u])
qed

lemma withdrawalDb_approve_balance:
  assumes "findWithdrawal s wid = Some w" "w_status w = Pending"
    and "findById s (w_user_id w) = Some u"
  shows "fst (withdrawalDb_approve s now wid notes) = Inr ()"
    and "balance_of (snd (withdrawalDb_approve s now wid notes)) (w_user_id w) =
           Some (u_balance u - w_amount w)"
  using assms
  by (simp_all add: withdrawalDb_approve_pending [where u=u] balance_of_def findById_lockUpi)



text \<open>A lock of the payment identity survives every approval, whatever its outcome.\<close>

lemma approve_keeps_lock:
  assumes "upi_locked_to s k upi"
  shows "upi_locked_to (snd (withdrawalDb_approve s now wid notes)) k upi"
proof (cases "findWithdrawal s wid")
  case None
  then show ?thesis using assms by (simp add: withdrawalDb_approve_def)
next
  case (Some w)
  show ?thesis
  proof (cases "w_status w = Pending")
    case False
    then show ?thesis using assms Some by (simp add: withdrawalDb_approve_def)
  next
    case True
    show ?thesis
    proof (cases "findById s (w_user_id w)")
      case None
      then show ?thesis
        using assms Some True
        by (simp add: withdrawalDb_approve_def Let_def updateBalance_absent upi_locked_to_def)
    next
      case (Some u)
      then show ?thesis
        using assms \<open>findWithdrawal s wid = Some w\<close> True
        by (auto simp: withdrawalDb_approve_pending [where u=u] upi_locked_to_def
              findById_lockUpi split: option.splits)
    qed
  qed
qed

lemma approve_withdrawals_keep_lock:
  "upi_locked_to s k upi \<Longrightarrow> upi_locked_to (approve_withdrawals s run) k upi"
  by (induction s run rule: approve_withdrawals.induct) (simp_all add: approve_keeps_lock)

text \<open>
  C5. The approval of a pending request of a user whose payment identity is not locked
  yet sets upi_locked, and sets both registered_upi and the active upi to the payment
  details of that request. Once a user is locked to an identity, no run of later
  approvals, of any requests and with any outcomes, changes registered_upi or unlocks.
\<close>

theorem upi_lock_first_and_forever:
  "(\<forall>w u. findWithdrawal s wid = Some w \<and> w_status w = Pending
          \<and> findById s (w_user_id w) = Some u \<and> \<not> u_upi_locked u \<longrightarrow>
      map_option (\<lambda>x. (u_upi_locked x, u_registered_upi x, u_upi x))
          (findById (snd (withdrawalDb_approve s now wid notes)) (w_user_id w)) =
        Some (True, w_payment_details w, w_payment_details w))
   \<and> (upi_locked_to s k upi \<longrightarrow> upi_locked_to (approve_withdrawals s run) k upi)"
proof (intro conjI allI impI)
  fix w u
  assume "findWithdrawal s wid = Some w \<and> w_status w = Pending
          \<and> findById s (w_user_id w) = Some u \<and> \<not> u_upi_locked u"
  then show "map_option (\<lambda>x. (u_upi_locked x, u_registered_upi x, u_upi x))
          (findById (snd (withdrawalDb_approve s now wid notes)) (w_user_id w)) =
        Some (True, w_payment_details w, w_payment_details w)"
    by (simp add: withdrawalDb_approve_pending [where u=u] findById_lockUpi)
next
  assume "upi_locked_to s k upi"
  then show "upi_locked_to (approve_withdrawals s run) k upi"
    by (rule approve_withdrawals_keep_lock)
qed

theorem upi_lock_first_and_forever_witness:
  "map_option w_status (findWithdrawal shop_db 1) = Some Pending
   \<and> map_option u_upi_locked (findById shop_db 1) = Some False
   \<and> upi_locked_to (snd (withdrawalDb_approve shop_db 30 1 [])) 1 ''alice@upi''
   \<and> map_option u_upi (findById (snd (withdrawalDb_approve shop_db 30 1 [])) 1) = Some ''alice@upi''
   \<and> map_option w_payment_details (findWithdrawal (snd (withdrawalDb_approve shop_db 30 1 [])) 3)
       = Some ''other@upi''
   \<and> upi_locked_to
       (approve_withdrawals (snd (withdrawalDb_approve shop_db 30 1 [])) [(31, 3, []), (32, 2, [])])
       1 ''alice@upi''"
proof -
  have c: "findWithdrawal shop_db 1 = Some (withdrawals shop_db ! 0)
           \<and> w_status (withdrawals shop_db ! 0) = Pending
           \<and> findById shop_db (w_user_id (withdrawals shop_db ! 0)) = Some alice
           \<and> \<not> u_upi_locked alice"
    by (simp add: findWithdrawal_def findById_def shop_defs)
  have d: "w_user_id (withdrawals shop_db ! 0) = 1"
    "w_payment_details (withdrawals shop_db ! 0) = ''alice@upi''"
    "findById shop_db 1 = Some alice"
    by (simp_all add: shop_defs findById_def)
  from upi_lock_first_and_forever [of shop_db 1 30 "[]"] c
  have 1: "map_option (\<lambda>x. (u_upi_locked x, u_registered_upi x, u_upi x))
          (findById (snd (withdrawalDb_approve shop_db 30 1 []))
             (w_user_id (withdrawals shop_db ! 0))) =
        Some (True, w_payment_details (withdrawals shop_db ! 0),
              w_payment_details (withdrawals shop_db ! 0))"
    by blast
  then have 2: "upi_locked_to (snd (withdrawalDb_approve shop_db 30 1 [])) 1 ''alice@upi''"
    by (auto simp: d upi_locked_to_def split: option.splits)
  from upi_lock_first_and_forever
         [of "snd (withdrawalDb_approve shop_db 30 1 [])" 1 30 "[]" 1 "''alice@upi''"
             "[(31, 3, []), (32, 2, [])]"] 2
  have 3: "upi_locked_to
       (approve_withdrawals (snd (withdrawalDb_approve shop_db 30 1 [])) [(31, 3, []), (32, 2, [])])
       1 ''alice@upi''"
    by blast
  have 4: "map_option w_payment_details
             (findWithdrawal (snd (withdrawalDb_approve shop_db 30 1 [])) 3) = Some ''other@upi''"
    using c by (simp add: withdrawalDb_approve_pending [where u=alice] findWithdrawal_def)
       (simp add: shop_defs)
  show ?thesis using c d 1 2 3 4 by auto
qed

text \<open>
  C10. The approval of a pending request debits the full amount whatever the balance is:
  no test on the balance stands between the status check and the debit. When the balance
  has fallen below the amount since the request was made, the approval still succeeds and
  the stored balance ends below zero.
\<close>

theorem approve_debits_unchecked:
  assumes "findWithdrawal s wid = Some w" and "w_status w = Pending"
    and "findById s (w_user_id w) = Some u" and "u_balance u < w_amount w"
  shows "fst (withdrawalDb_approve s now wid notes) = Inr ()
         \<and> balance_of (snd (withdrawalDb_approve s now wid notes)) (w_user_id w) =
             Some (u_balance u - w_amount w)
         \<and> u_balance u - w_amount w < 0"
  using assms withdrawalDb_approve_balance [OF assms(1-3)] by simp

lemma overdraft_db_eq:
  "overdraft_db =
     \<lparr>users = [\<lparr>u_id = 1, u_username = ''alice'', u_email = ''alice@mail.in'',
        u_phone = ''9000000001'', u_upi = ''pending'', u_balance = 40, u_referrer_id = None,
        u_first_task_completed = False, u_upi_locked = False, u_registered_upi = [],
        u_banned = False, u_referral_code = ''ALICE234''\<rparr>],
      user_seq = 1, tasks = [], pending_tasks = [], pending_seq = 0, completed_tasks = [],
      transactions =
        [\<lparr>t_user_id = 1, t_type = AdminCredit, t_amount = 100, t_reason = ''Admin adjustment''\<rparr>,
         \<lparr>t_user_id = 1, t_type = AdminDebit, t_amount = 60, t_reason = ''correction''\<rparr>],
      daily_checkin = [], referrals = [],
      withdrawals =
        [\<lparr>w_id = 1, w_user_id = 1, w_amount = 100, w_payment_method = ''upi'',
          w_payment_details = ''alice@upi'', w_status = Pending, w_request_date = 40,
          w_process_date = None, w_admin_notes = []\<rparr>],
      withdrawal_seq = 1\<rparr>"
  by (simp add: overdraft_db_def new_alice_def empty_db_def post_auth_signup_def signup_checks_def
      sample_host_def read_number_def bind_texts_def bind_text_def
      gen_username.simps pick_referral_code.simps userDb_create_def apply_invite_def
      post_admin_user_balance_def updateBalance_def insert_transaction_def update_user_def
      post_wallet_withdraw_def requireAuth_def getPendingTotalByUser_def withdrawalDb_create_def
      findById_def findByUsername_def findByEmail_def findByPhone_def findByReferralCode_def
      Let_def)

theorem approve_debits_unchecked_witness:
  "map_option w_status (findWithdrawal overdraft_db 1) = Some Pending
   \<and> map_option w_amount (findWithdrawal overdraft_db 1) = Some 100
   \<and> balance_of overdraft_db 1 = Some 40
   \<and> fst (withdrawalDb_approve overdraft_db 50 1 []) = Inr ()
   \<and> balance_of (snd (withdrawalDb_approve overdraft_db 50 1 [])) 1 = Some (- 60)"
proof -
  have c: "findWithdrawal overdraft_db 1 = Some (withdrawals overdraft_db ! 0)"
    "w_status (withdrawals overdraft_db ! 0) = Pending"
    "findById overdraft_db (w_user_id (withdrawals overdraft_db ! 0)) = Some (users overdraft_db ! 0)"
    "u_balance (users overdraft_db ! 0) < w_amount (withdrawals overdraft_db ! 0)"
    by (simp_all add: overdraft_db_eq findWithdrawal_def findById_def)
  have d: "w_user_id (withdrawals overdraft_db ! 0) = 1"
    "w_amount (withdrawals overdraft_db ! 0) = 100" "u_balance (users overdraft_db ! 0) = 40"
    by (simp_all add: overdraft_db_eq)
  from approve_debits_unchecked [OF c, of 50 "[]"] show ?thesis
    using c d by (simp add: balance_of_def)
qed


section \<open>Approval of task submissions\<close>

lemma updateBalance_stored:
  assumes "findById s uid \<noteq> None"
  shows "updateBalance s uid a ty rs =
           (Inr (), (update_user uid (\<lambda>u. u\<lparr>u_balance := u_balance u + a\<rparr>) s)
                      \<lparr>transactions := transactions s @
                         [\<lparr>t_user_id = uid, t_type = ty, t_amount = \<bar>a\<bar>, t_reason = rs\<rparr>]\<rparr>)"
  using assms by (auto simp: updateBalance_known)

lemma task_exists_non_tasks [simp]:
  "task_exists (s\<lparr>pending_tasks := p\<rparr>) = task_exists s"
  "task_exists (s\<lparr>completed_tasks := c\<rparr>) = task_exists s"
  "task_exists (s\<lparr>transactions := t\<rparr>) = task_exists s"
  "task_exists (s\<lparr>referrals := r\<rparr>) = task_exists s"
  "task_exists (update_user uid f s) = task_exists s"
  by (simp_all add: task_exists_def fun_eq_iff)

lemma findById_ftc_upd [simp]:
  "findById (update_user uid (\<lambda>u. u\<lparr>u_first_task_completed := b\<rparr>) s) k =
     (if k = uid then map_option (\<lambda>u. u\<lparr>u_first_task_completed := b\<rparr>) (findById s k)
      else findById s k)"
  by (rule findById_update_user) simp

lemma insert_completed_ok:
  assumes "findById s u \<noteq> None" "task_exists s tid"
  shows "insert_completed s u tid =
     (Inr (), s\<lparr>completed_tasks :=
                  (if (u, tid) \<in> set (completed_tasks s) then completed_tasks s
                   else completed_tasks s @ [(u, tid)])\<rparr>)"
  using assms by (auto simp: insert_completed_def)

lemma approve_plain:
  assumes "findById s u = Some usr" and "task_exists s tid"
    and "u_first_task_completed usr"
  shows "fst (pendingTaskDb_approve s now pid u tid price) = Inr ()"
    and "findById (snd (pendingTaskDb_approve s now pid u tid price)) k =
           (if k = u then Some (usr\<lparr>u_balance := u_balance usr + price\<rparr>) else findById s k)"
    and "referrals (snd (pendingTaskDb_approve s now pid u tid price)) = referrals s"
    and "tasks (snd (pendingTaskDb_approve s now pid u tid price)) = tasks s"
    and "transactions (snd (pendingTaskDb_approve s now pid u tid price)) =
           transactions s @ [\<lparr>t_user_id = u, t_type = TaskReward, t_amount = \<bar>price\<bar>,
                               t_reason = ''Task completed and approved''\<rparr>]"
  using assms
  by (simp_all add: pendingTaskDb_approve_def Let_def insert_completed_ok updateBalance_stored
        split: option.splits)

lemma approve_first:
  assumes "findById s u = Some usr" and "task_exists s tid"
    and "u_referrer_id usr = Some r" and "r \<noteq> 0" and "r \<noteq> u"
    and "\<not> u_first_task_completed usr" and "findById s r = Some ref"
  shows "fst (pendingTaskDb_approve s now pid u tid price) = Inr ()"
    and "findById (snd (pendingTaskDb_approve s now pid u tid price)) k =
           (if k = u then Some (usr\<lparr>u_balance := u_balance usr + price,
                                     u_first_task_completed := True\<rparr>)
            else if k = r then Some (ref\<lparr>u_balance := u_balance ref + 15\<rparr>)
            else findById s k)"
    and "referrals (snd (pendingTaskDb_approve s now pid u tid price)) =
           map (\<lambda>x. if r_referrer_id x = r \<and> r_referred_id x = u
                     then x\<lparr>r_reward_amount := r_reward_amount x + 15\<rparr> else x) (referrals s)"
    and "tasks (snd (pendingTaskDb_approve s now pid u tid price)) = tasks s"
    and "transactions (snd (pendingTaskDb_approve s now pid u tid price)) =
           transactions s @
             [\<lparr>t_user_id = u, t_type = TaskReward, t_amount = \<bar>price\<bar>,
               t_reason = ''Task completed and approved''\<rparr>,
              \<lparr>t_user_id = r, t_type = Referral, t_amount = 15,
               t_reason = ''Referral bonus (first task completed by referred user)''\<rparr>]"
  using assms
  by (simp_all add: pendingTaskDb_approve_def Let_def insert_completed_ok updateBalance_stored
        split: option.splits)


lemma approve_run_plain:
  assumes "findById s u = Some usr" and "u_first_task_completed usr"
    and "\<forall>(now, pid, tid, price) \<in> set run. task_exists s tid"
  shows "fst (approve_run s u run) = Inr ()
     \<and> map_option u_first_task_completed (findById (snd (approve_run s u run)) u) = Some True
     \<and> (\<forall>j. j \<noteq> u \<longrightarrow> findById (snd (approve_run s u run)) j = findById s j)
     \<and> referrals (snd (approve_run s u run)) = referrals s
     \<and> referral_credits (snd (approve_run s u run)) k = referral_credits s k"
  using assms
proof (induction run arbitrary: s usr)
  case Nil
  then show ?case by simp
next
  case (Cons a run)
  obtain now pid tid price where a: "a = (now, pid, tid, price)"
    by (cases a) auto
  obtain res s' where rs: "pendingTaskDb_approve s now pid u tid price = (res, s')"
    by fastforce
  have te: "task_exists s tid" using Cons.prems(3) a by simp
  note step = approve_plain [OF Cons.prems(1) te Cons.prems(2), of now pid price,
                             unfolded rs fst_conv snd_conv]
  have usr': "findById s' u = Some (usr\<lparr>u_balance := u_balance usr + price\<rparr>)"
    using step(2) [of u] by simp
  have ftc': "u_first_task_completed (usr\<lparr>u_balance := u_balance usr + price\<rparr>)"
    using Cons.prems(2) by simp
  have tasks': "\<forall>(now, pid, tid, price) \<in> set run. task_exists s' tid"
    using Cons.prems(3) step(4) by (auto simp: task_exists_def)
  note ih = Cons.IH [OF usr' ftc' tasks']
  have rc: "referral_credits s' k = referral_credits s k"
    by (simp add: referral_credits_def step(5))
  have others: "\<forall>j. j \<noteq> u \<longrightarrow> findById s' j = findById s j"
    by (simp add: step(2))
  have run: "approve_run s u (a # run) = approve_run s' u run"
    using step(1) by (simp add: a rs)
  show ?case
    unfolding run using ih rc others step(3) by simp
qed

text \<open>
  C2. A referred user who has not completed a task yet, with a stored referrer other
  than the user: over any non-empty run of approvals for that user, of any length and for
  any stored tasks, every approval succeeds, first_task_completed ends true, and the
  bonus is paid once in all: the referrer's balance is up by 15, the referrer has one more
  transaction of type referral, and the reward of the pair's Referral rows is up by 15.
\<close>

theorem first_task_bonus_once:
  assumes "findById s u = Some usr" and "u_referrer_id usr = Some r" and "r \<noteq> 0"
    and "r \<noteq> u" and "findById s r = Some ref" and "\<not> u_first_task_completed usr"
    and "run \<noteq> []" and "\<forall>(now, pid, tid, price) \<in> set run. task_exists s tid"
  shows "fst (approve_run s u run) = Inr ()
     \<and> map_option u_first_task_completed (findById (snd (approve_run s u run)) u) = Some True
     \<and> balance_of (snd (approve_run s u run)) r = Some (u_balance ref + 15)
     \<and> referral_credits (snd (approve_run s u run)) r = referral_credits s r + 1
     \<and> referrals (snd (approve_run s u run)) =
         map (\<lambda>x. if r_referrer_id x = r \<and> r_referred_id x = u
                   then x\<lparr>r_reward_amount := r_reward_amount x + 15\<rparr> else x) (referrals s)"
proof -
  obtain now pid tid price rest where run: "run = (now, pid, tid, price) # rest"
    using assms(7) by (cases run) auto
  obtain res s' where rs: "pendingTaskDb_approve s now pid u tid price = (res, s')"
    by fastforce
  have te: "task_exists s tid" using assms(8) run by simp
  note step = approve_first [OF assms(1) te assms(2,3,4,6,5), of now pid price,
                             unfolded rs fst_conv snd_conv]
  have usr': "findById s' u =
      Some (usr\<lparr>u_balance := u_balance usr + price, u_first_task_completed := True\<rparr>)"
    using step(2) [of u] by simp
  have ftc': "u_first_task_completed
      (usr\<lparr>u_balance := u_balance usr + price, u_first_task_completed := True\<rparr>)"
    by simp
  have ref': "findById s' r = Some (ref\<lparr>u_balance := u_balance ref + 15\<rparr>)"
    using step(2) [of r] assms(4) by simp
  have tasks': "\<forall>(now, pid, tid, price) \<in> set rest. task_exists s' tid"
    using assms(8) step(4) run by (auto simp: task_exists_def)
  have rc: "referral_credits s' r = referral_credits s r + 1"
    using assms(4) by (simp add: referral_credits_def step(5))
  note later = approve_run_plain [OF usr' ftc' tasks', of r]
  have whole: "approve_run s u run = approve_run s' u rest"
    using step(1) by (simp add: run rs)
  have "findById (snd (approve_run s' u rest)) r = findById s' r"
    using later assms(4) by blast
  then have bal: "balance_of (snd (approve_run s' u rest)) r = Some (u_balance ref + 15)"
    by (simp add: balance_of_def ref')
  show ?thesis
    unfolding whole using later rc bal step(3) by simp
qed

theorem first_task_bonus_once_witness:
  "map_option u_referrer_id (findById shop_db 2) = Some (Some 1)
   \<and> map_option u_first_task_completed (findById shop_db 2) = Some False
   \<and> balance_of shop_db 1 = Some 200
   \<and> referrals shop_db = [\<lparr>r_referrer_id = 1, r_referred_id = 2, r_reward_amount = 5\<rparr>]
   \<and> fst (approve_run shop_db 2 [(30, 1, 1, 20), (31, 2, 2, 30), (32, 2, 2, 30)]) = Inr ()
   \<and> map_option u_first_task_completed
       (findById (snd (approve_run shop_db 2 [(30, 1, 1, 20), (31, 2, 2, 30), (32, 2, 2, 30)])) 2)
       = Some True
   \<and> balance_of (snd (approve_run shop_db 2 [(30, 1, 1, 20), (31, 2, 2, 30), (32, 2, 2, 30)])) 1
       = Some 215
   \<and> referral_credits (snd (approve_run shop_db 2 [(30, 1, 1, 20), (31, 2, 2, 30), (32, 2, 2, 30)])) 1
       = 2
   \<and> referrals (snd (approve_run shop_db 2 [(30, 1, 1, 20), (31, 2, 2, 30), (32, 2, 2, 30)]))
       = [\<lparr>r_referrer_id = 1, r_referred_id = 2, r_reward_amount = 20\<rparr>]"
proof -
  have h: "findById shop_db 2 = Some bob" "u_referrer_id bob = Some 1" "(1::nat) \<noteq> 0"
    "(1::nat) \<noteq> 2" "findById shop_db 1 = Some alice" "\<not> u_first_task_completed bob"
    "[(30, 1, 1, 20), (31, 2, 2, 30), (32, 2, 2, 30)] \<noteq> ([] :: (nat \<times> nat \<times> nat \<times> rat) list)"
    "\<forall>(now, pid, tid, price) \<in> set [(30, 1, 1, 20), (31, 2, 2, 30), (32::nat, 2::nat, 2, 30::rat)].
        task_exists shop_db tid"
    by (simp_all add: findById_def task_exists_def shop_defs)
  have v: "u_balance alice = 200" "referral_credits shop_db 1 = 1"
    "referrals shop_db = [\<lparr>r_referrer_id = 1, r_referred_id = 2, r_reward_amount = 5\<rparr>]"
    by (simp_all add: referral_credits_def shop_defs)
  from first_task_bonus_once [OF h] show ?thesis
    using h v by (simp add: balance_of_def)
qed

text \<open>
  C1 asks that approving or rejecting a submission that is already approved or rejected
  fail and change nothing. pendingTaskDb.approve and pendingTaskDb.reject select the row
  by id alone and never read its status: on the sample store a second approval of
  submission 1 succeeds, credits the price a second time and appends one more ledger
  entry, and a rejection of the approved submission succeeds and overwrites its status.
\<close>

theorem approve_again_pays_again:
  "fst (pendingTaskDb_approve shop_db 30 1 2 1 20) = Inr ()
   \<and> map p_status (pending_tasks (snd (pendingTaskDb_approve shop_db 30 1 2 1 20)))
       = [Approved, Pending]
   \<and> balance_of (snd (pendingTaskDb_approve shop_db 30 1 2 1 20)) 2 = Some 20
   \<and> fst (pendingTaskDb_approve (snd (pendingTaskDb_approve shop_db 30 1 2 1 20)) 31 1 2 1 20)
       = Inr ()
   \<and> balance_of
       (snd (pendingTaskDb_approve (snd (pendingTaskDb_approve shop_db 30 1 2 1 20)) 31 1 2 1 20)) 2
       = Some 40
   \<and> length (transactions
       (snd (pendingTaskDb_approve (snd (pendingTaskDb_approve shop_db 30 1 2 1 20)) 31 1 2 1 20)))
       = length (transactions (snd (pendingTaskDb_approve shop_db 30 1 2 1 20))) + 1
   \<and> map p_status (pending_tasks (snd (pendingTaskDb_reject
        (snd (pendingTaskDb_approve shop_db 30 1 2 1 20)) 32 1 ''late'')))
       = [Rejected, Pending]
   \<and> fst (pendingTaskDb_reject (snd (pendingTaskDb_approve shop_db 30 1 2 1 20)) 32 1 ''late'')
       = Inr ()"
  by (simp add: pendingTaskDb_approve_def pendingTaskDb_reject_def insert_completed_def
        updateBalance_def insert_transaction_def update_user_def findById_def task_exists_def
        balance_of_def shop_defs Let_def)

section \<open>Referral at signup\<close>

lemma find_snoc_hit: "P x \<Longrightarrow> \<exists>y. find P (xs @ [x]) = Some y"
  by (induction xs) auto

lemma signup_checks_code [simp]:
  "signup_checks s (req\<lparr>q_inviteCode := c\<rparr>) rnd = signup_checks s req rnd"
  by (simp add: signup_checks_def Let_def cong: if_cong)

lemma apply_invite_none [simp]: "apply_invite h s newId JUndefined = (Inr (), s)"
  by (simp add: apply_invite_def)

lemma signup_with_code:
  "post_auth_signup h s req rnd gen =
     (case post_auth_signup h s (req\<lparr>q_inviteCode := JUndefined\<rparr>) rnd gen of
        (Inl e, s1) \<Rightarrow> (Inl e, s1)
      | (Inr newId, s1) \<Rightarrow>
          (case apply_invite h s1 newId (q_inviteCode req) of
             (Inl e, s2) \<Rightarrow> (Inl e, s2)
           | (Inr _, s2) \<Rightarrow> (Inr newId, s2)))"
  by (simp add: post_auth_signup_def split: prod.split sum.split)

lemma userDb_create_stored:
  "userDb_create s username email phone upi gen = (Inr newId, s1) \<Longrightarrow> findById s1 newId \<noteq> None"
  using find_snoc_hit [of "\<lambda>u. u_id u = Suc (user_seq s)" _ "users s"]
  by (auto simp: userDb_create_def Let_def findById_def split: if_splits)

lemma signup_new_user_stored:
  assumes "post_auth_signup h s (req\<lparr>q_inviteCode := JUndefined\<rparr>) rnd gen = (Inr newId, s1)"
  shows "findById s1 newId \<noteq> None"
  using assms
  by (auto simp: post_auth_signup_def dest: userDb_create_stored split: sum.splits prod.splits)

lemma find_stored: "find P xs = Some x \<Longrightarrow> Q x \<Longrightarrow> find Q xs \<noteq> None"
  by (induction xs) (auto split: if_splits)

lemma findById_referrer_upd [simp]:
  "findById (update_user uid (\<lambda>u. u\<lparr>u_referrer_id := b\<rparr>) s) k =
     (if k = uid then map_option (\<lambda>u. u\<lparr>u_referrer_id := b\<rparr>) (findById s k)
      else findById s k)"
  by (rule findById_update_user) simp

lemma referralDb_create_ok:
  assumes "findById s a \<noteq> None" and "findById s b \<noteq> None" and "0 < amt" and "a \<noteq> b"
  shows "fst (referralDb_create s a b amt) = Inr ()"
    and "referrals (snd (referralDb_create s a b amt)) =
           referrals s @ [\<lparr>r_referrer_id = a, r_referred_id = b, r_reward_amount = amt\<rparr>]"
    and "map_option u_referrer_id (findById (snd (referralDb_create s a b amt)) b) = Some (Some a)"
    and "balance_of (snd (referralDb_create s a b amt)) a =
           map_option (\<lambda>x. x + amt) (balance_of s a)"
    and "transactions (snd (referralDb_create s a b amt)) =
           transactions s @ [\<lparr>t_user_id = a, t_type = Referral, t_amount = amt,
                               t_reason = ''Referral bonus (instant 5)''\<rparr>]"
  using assms
  by (auto simp: referralDb_create_def Let_def updateBalance_stored balance_of_def)

text \<open>
  The referral step for an invite code that is a non-empty text. Take a signup that,
  without its invite code, succeeds with the new id and leaves the store \<open>s1\<close> holding
  the new user. With a code that the host's upper case turns into the referral code of a
  stored user other than the new one and not banned, the signup succeeds with the same
  id, appends one Referral row with reward 5, sets the new user's referrer_id, adds 5 to
  the referrer's balance and appends one transaction of type referral. With a text that
  is nobody's code, the new user's own, or a banned user's, the signup gives the same
  answer and the same store as without the code.
\<close>

lemma signup_text_code:
  assumes "post_auth_signup h s (req\<lparr>q_inviteCode := JUndefined\<rparr>) rnd gen = (Inr newId, s1)"
    and "q_inviteCode req = JStr code" and "code \<noteq> []"
  shows
    "(\<forall>r. findByReferralCode s1 (toUpperCase h code) = Some r
          \<and> u_id r \<noteq> newId \<and> \<not> u_banned r \<longrightarrow>
        fst (post_auth_signup h s req rnd gen) = Inr newId
        \<and> referrals (snd (post_auth_signup h s req rnd gen)) =
            referrals s1 @ [\<lparr>r_referrer_id = u_id r, r_referred_id = newId, r_reward_amount = 5\<rparr>]
        \<and> map_option u_referrer_id (findById (snd (post_auth_signup h s req rnd gen)) newId) =
            Some (Some (u_id r))
        \<and> balance_of s1 (u_id r) \<noteq> None
        \<and> balance_of (snd (post_auth_signup h s req rnd gen)) (u_id r) =
            map_option (\<lambda>x. x + 5) (balance_of s1 (u_id r))
        \<and> transactions (snd (post_auth_signup h s req rnd gen)) =
            transactions s1 @ [\<lparr>t_user_id = u_id r, t_type = Referral, t_amount = 5,
                                 t_reason = ''Referral bonus (instant 5)''\<rparr>])
     \<and> (findByReferralCode s1 (toUpperCase h code) = None
         \<or> (\<exists>r. findByReferralCode s1 (toUpperCase h code) = Some r
                \<and> (u_id r = newId \<or> u_banned r)) \<longrightarrow>
        post_auth_signup h s req rnd gen = (Inr newId, s1))"
proof (intro conjI allI impI)
  fix r
  assume h: "findByReferralCode s1 (toUpperCase h code) = Some r
          \<and> u_id r \<noteq> newId \<and> \<not> u_banned r"
  have new: "findById s1 newId \<noteq> None"
    by (rule signup_new_user_stored [OF assms(1)])
  have ref: "findById s1 (u_id r) \<noteq> None"
    using h find_stored [of "\<lambda>u. u_referral_code u = toUpperCase h code" "users s1" r
                            "\<lambda>u. u_id u = u_id r"]
    by (simp add: findByReferralCode_def findById_def)
  have inv: "apply_invite h s1 newId (q_inviteCode req) = referralDb_create s1 (u_id r) newId 5"
    using h assms(2,3) by (simp add: apply_invite_def)
  obtain res s2 where rs: "referralDb_create s1 (u_id r) newId 5 = (res, s2)"
    by fastforce
  have pos: "(0::rat) < 5" by simp
  note c = referralDb_create_ok [OF ref new pos, unfolded rs fst_conv snd_conv]
  have ne: "u_id r \<noteq> newId" using h by simp
  have whole: "post_auth_signup h s req rnd gen = (Inr newId, s2)"
    using c(1) [OF ne] by (simp add: signup_with_code [of h s req] assms(1) inv rs)
  show "fst (post_auth_signup h s req rnd gen) = Inr newId"
    by (simp add: whole)
  show "referrals (snd (post_auth_signup h s req rnd gen)) =
            referrals s1 @ [\<lparr>r_referrer_id = u_id r, r_referred_id = newId, r_reward_amount = 5\<rparr>]"
    using c(2) [OF ne] by (simp add: whole)
  show "map_option u_referrer_id (findById (snd (post_auth_signup h s req rnd gen)) newId) =
            Some (Some (u_id r))"
    using c(3) [OF ne] by (simp add: whole)
  show "balance_of s1 (u_id r) \<noteq> None"
    using ref by (simp add: balance_of_def)
  show "balance_of (snd (post_auth_signup h s req rnd gen)) (u_id r) =
            map_option (\<lambda>x. x + 5) (balance_of s1 (u_id r))"
    using c(4) [OF ne] by (simp add: whole)
  show "transactions (snd (post_auth_signup h s req rnd gen)) =
            transactions s1 @ [\<lparr>t_user_id = u_id r, t_type = Referral, t_amount = 5,
                                 t_reason = ''Referral bonus (instant 5)''\<rparr>]"
    using c(5) [OF ne] by (simp add: whole)
next
  assume "findByReferralCode s1 (toUpperCase h code) = None
         \<or> (\<exists>r. findByReferralCode s1 (toUpperCase h code) = Some r
                \<and> (u_id r = newId \<or> u_banned r))"
  then have "apply_invite h s1 newId (q_inviteCode req) = (Inr (), s1)"
    using assms(2,3) by (auto simp: apply_invite_def)
  then show "post_auth_signup h s req rnd gen = (Inr newId, s1)"
    by (simp add: signup_with_code [of h s req] assms(1))
qed

lemma dave_signup_plain:
  "post_auth_signup h shop_db (new_dave\<lparr>q_inviteCode := JUndefined\<rparr>) (\<lambda>k. k)
       (\<lambda>k. ''DAVE2345'') =
     (Inr 4,
      shop_db\<lparr>users := [alice, bob, carol,
          \<lparr>u_id = 4, u_username = ''dave'', u_email = ''dave@mail.in'', u_phone = ''9000000004'',
            u_upi = ''pending'', u_balance = 0, u_referrer_id = None,
            u_first_task_completed = False, u_upi_locked = False, u_registered_upi = [],
            u_banned = False, u_referral_code = ''DAVE2345''\<rparr>],
        user_seq := 4\<rparr>)"
  by (simp add: post_auth_signup_def signup_checks_def new_dave_def gen_username.simps
        pick_referral_code.simps userDb_create_def findByUsername_def findByEmail_def
        findByPhone_def findByReferralCode_def shop_defs Let_def)

text \<open>
  C8 asks that a signup with an invite code that is no valid code still succeed, the
  referral step skipped without a trace. The route calls \<open>inviteCode.toUpperCase()\<close> on
  whatever the body carries, after userDb.create has written the user row: on the sample
  store, Dave's signup succeeds with id 4 without a code and with the text nobody, but
  with the number 12345 or an array as code it is answered as failed, and the row of
  user 4 is in the store all the same.
\<close>

theorem signup_fails_on_number_code:
  "findById shop_db 4 = None
   \<and> fst (post_auth_signup sample_host shop_db (new_dave\<lparr>q_inviteCode := JUndefined\<rparr>)
            (\<lambda>k. k) (\<lambda>k. ''DAVE2345'')) = Inr 4
   \<and> fst (post_auth_signup sample_host shop_db (new_dave\<lparr>q_inviteCode := JStr ''nobody''\<rparr>)
            (\<lambda>k. k) (\<lambda>k. ''DAVE2345'')) = Inr 4
   \<and> fst (post_auth_signup sample_host shop_db (new_dave\<lparr>q_inviteCode := JNum (Finite 12345)\<rparr>)
            (\<lambda>k. k) (\<lambda>k. ''DAVE2345'')) = Inl TypeError
   \<and> map_option u_email
       (findById (snd (post_auth_signup sample_host shop_db
                         (new_dave\<lparr>q_inviteCode := JNum (Finite 12345)\<rparr>) (\<lambda>k. k) (\<lambda>k. ''DAVE2345''))) 4)
       = Some ''dave@mail.in''
   \<and> referrals (snd (post_auth_signup sample_host shop_db
                       (new_dave\<lparr>q_inviteCode := JNum (Finite 12345)\<rparr>) (\<lambda>k. k) (\<lambda>k. ''DAVE2345'')))
       = referrals shop_db
   \<and> fst (post_auth_signup sample_host shop_db (new_dave\<lparr>q_inviteCode := JArray []\<rparr>)
            (\<lambda>k. k) (\<lambda>k. ''DAVE2345'')) = Inl TypeError"
proof -
  let ?s1 = "shop_db\<lparr>users := [alice, bob, carol,
          \<lparr>u_id = 4, u_username = ''dave'', u_email = ''dave@mail.in'', u_phone = ''9000000004'',
            u_upi = ''pending'', u_balance = 0, u_referrer_id = None,
            u_first_task_completed = False, u_upi_locked = False, u_registered_upi = [],
            u_banned = False, u_referral_code = ''DAVE2345''\<rparr>],
        user_seq := 4\<rparr>"
  have up: "toUpperCase sample_host ''nobody'' = ''NOBODY''"
    unfolding sample_host_def by simp code_simp
  have look: "findByReferralCode ?s1 ''NOBODY'' = None"
    by (simp add: findByReferralCode_def shop_defs)
  have 0: "findById shop_db 4 = None"
    by (simp add: findById_def shop_defs)
  have 1: "post_auth_signup sample_host shop_db (new_dave\<lparr>q_inviteCode := JUndefined\<rparr>)
            (\<lambda>k. k) (\<lambda>k. ''DAVE2345'') = (Inr 4, ?s1)"
    by (rule dave_signup_plain)
  have 2: "post_auth_signup sample_host shop_db (new_dave\<lparr>q_inviteCode := JStr ''nobody''\<rparr>)
            (\<lambda>k. k) (\<lambda>k. ''DAVE2345'') = (Inr 4, ?s1)"
    by (simp add: signup_with_code [of sample_host shop_db "new_dave\<lparr>q_inviteCode := JStr ''nobody''\<rparr>"]
          dave_signup_plain apply_invite_def up look)
  have 3: "post_auth_signup sample_host shop_db (new_dave\<lparr>q_inviteCode := JNum (Finite 12345)\<rparr>)
            (\<lambda>k. k) (\<lambda>k. ''DAVE2345'') = (Inl TypeError, ?s1)"
    by (simp add: signup_with_code [of sample_host shop_db "new_dave\<lparr>q_inviteCode := JNum (Finite 12345)\<rparr>"]
          dave_signup_plain apply_invite_def)
  have 4: "post_auth_signup sample_host shop_db (new_dave\<lparr>q_inviteCode := JArray []\<rparr>)
            (\<lambda>k. k) (\<lambda>k. ''DAVE2345'') = (Inl TypeError, ?s1)"
    by (simp add: signup_with_code [of sample_host shop_db "new_dave\<lparr>q_inviteCode := JArray []\<rparr>"]
          dave_signup_plain apply_invite_def)
  show ?thesis
    unfolding 1 2 3 4 using 0 by (simp add: findById_def shop_defs)
qed

section \<open>Requesting a withdrawal\<close>

lemma find_pred_hit: "find P xs = Some x \<Longrightarrow> P x"
  by (induction xs) (auto split: if_splits)

lemma requireAuth_user:
  assumes "requireAuth s sess = Inr user"
  shows "findById s (u_id user) = Some user" and "\<not> u_banned user"
proof -
  from assms obtain uid where u: "sess = Some uid" "findById s uid = Some user" "\<not> u_banned user"
    by (auto simp: requireAuth_def split: option.splits if_splits)
  from u(2) have "u_id user = uid"
    using find_pred_hit [of "\<lambda>u. u_id u = uid" "users s" user] by (simp add: findById_def)
  with u show "findById s (u_id user) = Some user" and "\<not> u_banned user" by simp_all
qed

lemma withdrawalDb_create_users:
  "users (snd (withdrawalDb_create h s now uid a m d)) = users s"
  by (simp add: withdrawalDb_create_def Let_def split: sum.split option.split prod.split)

lemma post_wallet_withdraw_users:
  "users (snd (post_wallet_withdraw h s now sess amount paymentMethod paymentDetails)) = users s"
  by (simp add: post_wallet_withdraw_def Let_def withdrawalDb_create_users split: sum.split)

text \<open>
  C6, as the route has it, for a request of an authenticated user. The amount is read
  with parseFloat; the available balance is the user's balance less the sum of the
  user's pending requests, sum and difference as the host computes them on doubles.
  \<^item> When the amount, the payment method or the payment details is missing or falsy (the
    number 0 and the empty text are; the text "0" is not), the request is refused with
    the all-fields-required error.
  \<^item> Otherwise an amount below 50 is refused as below the minimum.
  \<^item> Otherwise an amount above the available balance is refused as insufficient.
  \<^item> Otherwise, when the amount is a finite number (not NaN) and the driver binds the
    method and the details as two texts (as it does when both are texts), a pending
    withdrawal row with that amount and these texts is created.
  \<^item> In every case the users table, and with it every balance, stays as it was.
\<close>

theorem post_wallet_withdraw_cases:
  assumes "requireAuth s sess = Inr user"
  shows
    "(\<not> truthy amount \<or> \<not> truthy paymentMethod \<or> \<not> truthy paymentDetails \<longrightarrow>
        post_wallet_withdraw h s now sess amount paymentMethod paymentDetails =
          (Inl AllFieldsRequired, s))
     \<and> (truthy amount \<and> truthy paymentMethod \<and> truthy paymentDetails
          \<and> num_less (read_number h amount) 50 \<longrightarrow>
        post_wallet_withdraw h s now sess amount paymentMethod paymentDetails =
          (Inl MinimumWithdrawal, s))
     \<and> (truthy amount \<and> truthy paymentMethod \<and> truthy paymentDetails
          \<and> \<not> num_less (read_number h amount) 50
          \<and> num_greater (read_number h amount)
               (float_sub h (u_balance user) (getPendingTotalByUser h s (u_id user))) \<longrightarrow>
        post_wallet_withdraw h s now sess amount paymentMethod paymentDetails =
          (Inl InsufficientAvailableBalance, s))
     \<and> (\<forall>x m d. truthy amount \<and> truthy paymentMethod \<and> truthy paymentDetails
          \<and> read_number h amount = Finite x \<and> \<not> x < 50
          \<and> \<not> x > float_sub h (u_balance user) (getPendingTotalByUser h s (u_id user))
          \<and> bind_texts h paymentMethod paymentDetails = Inr (Some m, Some d) \<longrightarrow>
        post_wallet_withdraw h s now sess amount paymentMethod paymentDetails =
          (Inr (Suc (withdrawal_seq s)),
           s\<lparr>withdrawals := withdrawals s @
                [\<lparr>w_id = Suc (withdrawal_seq s), w_user_id = u_id user, w_amount = x,
                  w_payment_method = m, w_payment_details = d,
                  w_status = Pending, w_request_date = now, w_process_date = None,
                  w_admin_notes = []\<rparr>],
              withdrawal_seq := Suc (withdrawal_seq s)\<rparr>))
     \<and> users (snd (post_wallet_withdraw h s now sess amount paymentMethod paymentDetails))
         = users s"
proof (intro conjI allI impI)
  assume "\<not> truthy amount \<or> \<not> truthy paymentMethod \<or> \<not> truthy paymentDetails"
  then show "post_wallet_withdraw h s now sess amount paymentMethod paymentDetails =
          (Inl AllFieldsRequired, s)"
    using assms by (auto simp: post_wallet_withdraw_def)
next
  assume "truthy amount \<and> truthy paymentMethod \<and> truthy paymentDetails
          \<and> num_less (read_number h amount) 50"
  then show "post_wallet_withdraw h s now sess amount paymentMethod paymentDetails =
          (Inl MinimumWithdrawal, s)"
    using assms by (simp add: post_wallet_withdraw_def Let_def)
next
  assume "truthy amount \<and> truthy paymentMethod \<and> truthy paymentDetails
          \<and> \<not> num_less (read_number h amount) 50
          \<and> num_greater (read_number h amount)
               (float_sub h (u_balance user) (getPendingTotalByUser h s (u_id user)))"
  then show "post_wallet_withdraw h s now sess amount paymentMethod paymentDetails =
          (Inl InsufficientAvailableBalance, s)"
    using assms by (simp add: post_wallet_withdraw_def Let_def)
next
  fix x m d
  assume "truthy amount \<and> truthy paymentMethod \<and> truthy paymentDetails
          \<and> read_number h amount = Finite x \<and> \<not> x < 50
          \<and> \<not> x > float_sub h (u_balance user) (getPendingTotalByUser h s (u_id user))
          \<and> bind_texts h paymentMethod paymentDetails = Inr (Some m, Some d)"
  then show "post_wallet_withdraw h s now sess amount paymentMethod paymentDetails =
          (Inr (Suc (withdrawal_seq s)),
           s\<lparr>withdrawals := withdrawals s @
                [\<lparr>w_id = Suc (withdrawal_seq s), w_user_id = u_id user, w_amount = x,
                  w_payment_method = m, w_payment_details = d,
                  w_status = Pending, w_request_date = now, w_process_date = None,
                  w_admin_notes = []\<rparr>],
              withdrawal_seq := Suc (withdrawal_seq s)\<rparr>)"
    using assms requireAuth_user [OF assms]
    by (simp add: post_wallet_withdraw_def withdrawalDb_create_def Let_def)
next
  show "users (snd (post_wallet_withdraw h s now sess amount paymentMethod paymentDetails))
         = users s"
    by (rule post_wallet_withdraw_users)
qed

theorem post_wallet_withdraw_cases_witness:
  "requireAuth shop_db (Some 1) = Inr alice
   \<and> getPendingTotalByUser sample_host shop_db 1 = 110
   \<and> post_wallet_withdraw sample_host shop_db 40 (Some 1) (JNum (Finite 0)) (JStr ''upi'')
         (JStr ''alice@upi'') = (Inl AllFieldsRequired, shop_db)
   \<and> post_wallet_withdraw sample_host shop_db 40 (Some 1) (JNum (Finite 70)) (JStr ''upi'')
         (JStr []) = (Inl AllFieldsRequired, shop_db)
   \<and> post_wallet_withdraw sample_host shop_db 40 (Some 1) (JStr ''0'') (JStr ''upi'')
         (JStr ''alice@upi'') = (Inl MinimumWithdrawal, shop_db)
   \<and> post_wallet_withdraw sample_host shop_db 40 (Some 1) (JNum (Finite 30)) (JStr ''upi'')
         (JStr ''alice@upi'') = (Inl MinimumWithdrawal, shop_db)
   \<and> post_wallet_withdraw sample_host shop_db 40 (Some 1) (JNum (Finite 100)) (JStr ''upi'')
         (JStr ''alice@upi'') = (Inl InsufficientAvailableBalance, shop_db)
   \<and> post_wallet_withdraw sample_host shop_db 40 (Some 1) (JNum PosInfinity) (JStr ''upi'')
         (JStr ''alice@upi'') = (Inl InsufficientAvailableBalance, shop_db)
   \<and> fst (post_wallet_withdraw sample_host shop_db 40 (Some 1) (JNum (Finite 90)) (JStr ''upi'')
            (JStr ''alice@upi'')) = Inr 4
   \<and> map w_amount (withdrawals (snd (post_wallet_withdraw sample_host shop_db 40 (Some 1)
                                       (JNum (Finite 90)) (JStr ''upi'') (JStr ''alice@upi''))))
       = [60, 75, 50, 90]
   \<and> users (snd (post_wallet_withdraw sample_host shop_db 40 (Some 1) (JNum (Finite 90))
                   (JStr ''upi'') (JStr ''alice@upi''))) = users shop_db"
proof -
  have a: "requireAuth shop_db (Some 1) = Inr alice"
    by (simp add: requireAuth_def findById_def shop_defs)
  have p: "getPendingTotalByUser sample_host shop_db 1 = 110" "u_id alice = 1"
    "u_balance alice = 200" "withdrawal_seq shop_db = 3"
    "map w_amount (withdrawals shop_db) = [60, 75, 50]"
    "float_sub sample_host 200 110 = 90"
    by (simp_all add: getPendingTotalByUser_def sample_host_def shop_defs)
  have n: "read_number sample_host (JNum (Finite 30)) = Finite 30"
    "read_number sample_host (JNum (Finite 100)) = Finite 100"
    "read_number sample_host (JNum (Finite 90)) = Finite 90"
    "read_number sample_host (JNum PosInfinity) = PosInfinity"
    "read_number sample_host (JStr ''0'') = Finite 0"
    by (simp_all add: read_number_def sample_host_def digits_parseFloat_def)
  have b: "bind_texts sample_host (JStr ''upi'') (JStr ''alice@upi'') =
             Inr (Some ''upi'', Some ''alice@upi'')"
    by (simp add: bind_texts_def bind_text_def)
  from post_wallet_withdraw_cases [OF a, of "JNum (Finite 0)" "JStr ''upi''" "JStr ''alice@upi''"
         sample_host 40]
  have 1: "post_wallet_withdraw sample_host shop_db 40 (Some 1) (JNum (Finite 0)) (JStr ''upi'')
         (JStr ''alice@upi'') = (Inl AllFieldsRequired, shop_db)"
    by simp
  from post_wallet_withdraw_cases [OF a, of "JNum (Finite 70)" "JStr ''upi''" "JStr []"
         sample_host 40]
  have 2: "post_wallet_withdraw sample_host shop_db 40 (Some 1) (JNum (Finite 70)) (JStr ''upi'')
         (JStr []) = (Inl AllFieldsRequired, shop_db)"
    by simp
  from post_wallet_withdraw_cases [OF a, of "JStr ''0''" "JStr ''upi''" "JStr ''alice@upi''"
         sample_host 40]
  have 3: "post_wallet_withdraw sample_host shop_db 40 (Some 1) (JStr ''0'') (JStr ''upi'')
         (JStr ''alice@upi'') = (Inl MinimumWithdrawal, shop_db)"
    using n by simp
  from post_wallet_withdraw_cases [OF a, of "JNum (Finite 30)" "JStr ''upi''" "JStr ''alice@upi''"
         sample_host 40]
  have 4: "post_wallet_withdraw sample_host shop_db 40 (Some 1) (JNum (Finite 30)) (JStr ''upi'')
         (JStr ''alice@upi'') = (Inl MinimumWithdrawal, shop_db)"
    using n by simp
  from post_wallet_withdraw_cases [OF a, of "JNum (Finite 100)" "JStr ''upi''" "JStr ''alice@upi''"
         sample_host 40]
  have 5: "post_wallet_withdraw sample_host shop_db 40 (Some 1) (JNum (Finite 100)) (JStr ''upi'')
         (JStr ''alice@upi'') = (Inl InsufficientAvailableBalance, shop_db)"
    using n p by simp
  from post_wallet_withdraw_cases [OF a, of "JNum PosInfinity" "JStr ''upi''" "JStr ''alice@upi''"
         sample_host 40]
  have 6: "post_wallet_withdraw sample_host shop_db 40 (Some 1) (JNum PosInfinity) (JStr ''upi'')
         (JStr ''alice@upi'') = (Inl InsufficientAvailableBalance, shop_db)"
    using n p by simp
  from post_wallet_withdraw_cases [OF a, of "JNum (Finite 90)" "JStr ''upi''" "JStr ''alice@upi''"
         sample_host 40]
  have 7: "fst (post_wallet_withdraw sample_host shop_db 40 (Some 1) (JNum (Finite 90)) (JStr ''upi'')
            (JStr ''alice@upi'')) = Inr 4
   \<and> map w_amount (withdrawals (snd (post_wallet_withdraw sample_host shop_db 40 (Some 1)
                                       (JNum (Finite 90)) (JStr ''upi'') (JStr ''alice@upi''))))
       = [60, 75, 50, 90]
   \<and> users (snd (post_wallet_withdraw sample_host shop_db 40 (Some 1) (JNum (Finite 90))
                   (JStr ''upi'') (JStr ''alice@upi''))) = users shop_db"
    using n p b by simp
  show ?thesis using a p(1) 1 2 3 4 5 6 7 by simp
qed

text \<open>
  C6 as stated does not hold for every request. On the sample store, with Alice's
  available balance of 90:
  \<^item> the number 0 as amount is below 50, and the route's first test takes it for a missing
    field and answers that all fields are required, not that the amount is below the
    minimum;
  \<^item> the text abc as amount is read as NaN, which is neither below 50 nor above the
    available balance, and no row is created: the INSERT raises on the NOT NULL column;
  \<^item> the amount 70 with the boolean true as method passes both tests, and no row is
    created: the driver raises on binding the boolean.
\<close>

theorem post_wallet_withdraw_outside_claim:
  "requireAuth shop_db (Some 1) = Inr alice
   \<and> read_number sample_host (JNum (Finite 0)) = Finite 0 \<and> (0::rat) < 50
   \<and> post_wallet_withdraw sample_host shop_db 40 (Some 1) (JNum (Finite 0)) (JStr ''upi'')
         (JStr ''alice@upi'') = (Inl AllFieldsRequired, shop_db)
   \<and> post_wallet_withdraw sample_host shop_db 40 (Some 1) (JNum (Finite 0)) (JStr ''upi'')
         (JStr ''alice@upi'') \<noteq> (Inl MinimumWithdrawal, shop_db)
   \<and> read_number sample_host (JStr ''abc'') = NaN
   \<and> post_wallet_withdraw sample_host shop_db 40 (Some 1) (JStr ''abc'') (JStr ''upi'')
       (JStr ''alice@upi'') = (Inl NotNullConstraint, shop_db)
   \<and> post_wallet_withdraw sample_host shop_db 40 (Some 1) (JNum (Finite 70)) (JBool True)
       (JStr ''alice@upi'') = (Inl TypeError, shop_db)"
proof -
  have a: "requireAuth shop_db (Some 1) = Inr alice"
    by (simp add: requireAuth_def findById_def shop_defs)
  have p: "getPendingTotalByUser sample_host shop_db 1 = 110" "u_id alice = 1"
    "u_balance alice = 200" "float_sub sample_host 200 110 = 90"
    by (simp_all add: getPendingTotalByUser_def sample_host_def shop_defs)
  have abc: "digits_value ''abc'' 0 = None"
    by code_simp
  have n: "read_number sample_host (JNum (Finite 0)) = Finite 0"
    "read_number sample_host (JNum (Finite 70)) = Finite 70"
    "read_number sample_host (JStr ''abc'') = NaN"
    by (simp_all add: read_number_def sample_host_def digits_parseFloat_def abc)
  have 1: "post_wallet_withdraw sample_host shop_db 40 (Some 1) (JNum (Finite 0)) (JStr ''upi'')
         (JStr ''alice@upi'') = (Inl AllFieldsRequired, shop_db)"
    using a by (simp add: post_wallet_withdraw_def)
  have 2: "post_wallet_withdraw sample_host shop_db 40 (Some 1) (JStr ''abc'') (JStr ''upi'')
       (JStr ''alice@upi'') = (Inl NotNullConstraint, shop_db)"
    using a p by (simp add: post_wallet_withdraw_def n withdrawalDb_create_def bind_texts_def
                  bind_text_def Let_def)
  have 3: "post_wallet_withdraw sample_host shop_db 40 (Some 1) (JNum (Finite 70)) (JBool True)
       (JStr ''alice@upi'') = (Inl TypeError, shop_db)"
    using a p by (simp add: post_wallet_withdraw_def n withdrawalDb_create_def bind_texts_def
                  bind_text_def Let_def)
  show ?thesis unfolding 1 2 3 using a n by simp
qed

section \<open>The daily check-in\<close>

lemma hours_diff_day: "(rat_of_int x / (1000 * 60 * 60) < 24) = (x < 24 * 60 * 60 * 1000)"
proof -
  have "(rat_of_int x / 3600000 < 24) = (rat_of_int x < rat_of_int 86400000)"
    by (simp add: divide_less_eq)
  also have "\<dots> = (x < 86400000)" by (simp only: of_int_less_iff)
  finally show ?thesis by simp
qed

lemma random_amount_range:
  assumes "0 \<le> random" "random < (1::rat)"
  shows "1 \<le> \<lfloor>random * 10\<rfloor> + 1 \<and> \<lfloor>random * 10\<rfloor> + 1 \<le> 10"
proof -
  have "0 \<le> random * 10" using assms by simp
  then have lo: "0 \<le> \<lfloor>random * 10\<rfloor>" by simp
  have "random * 10 < 10" using assms by simp
  then have "\<lfloor>random * 10\<rfloor> < 10" by (simp add: floor_less_iff)
  with lo show ?thesis by simp
qed

lemma post_checkin_claim_result:
  assumes "requireAuth s sess = Inr user"
  shows "post_checkin_claim h s now_ms sess random =
     (let amount = rat_of_int (\<lfloor>random * 10\<rfloor> + 1);
          granted = (\<lambda>day.
            (Inr (amount, day),
             (update_user (u_id user) (\<lambda>u. u\<lparr>u_balance := u_balance u + amount\<rparr>)
                (s\<lparr>daily_checkin := daily_checkin s @
                     [\<lparr>c_user_id = u_id user, c_day = day, c_amount = amount,
                       c_claimed_at = now_ms div 1000\<rparr>]\<rparr>))
             \<lparr>transactions := transactions s @
                [\<lparr>t_user_id = u_id user, t_type = DailyCheckin, t_amount = \<bar>amount\<bar>,
                  t_reason = ''Day '' @ string_of_nat day @ '' daily check-in''\<rparr>]\<rparr>))
      in case getLastCheckin s (u_id user) of
           None \<Rightarrow> granted 1
         | Some l \<Rightarrow>
             if now_ms - (c_claimed_at l * 1000 - zone_offset h (c_claimed_at l))
                  < 24 * 60 * 60 * 1000
             then (Inl ClaimAfter24Hours, s)
             else granted (if c_day l < 7 then c_day l + 1 else 1))"
  using assms requireAuth_user [OF assms]
  by (simp add: post_checkin_claim_def checkinDb_claim_def Let_def hours_diff_day
        updateBalance_known [where u=user] split: option.splits)

text \<open>
  The rule the route follows, for an authenticated user and a random draw from 0 up to
  1, with the age of the latest claim as the route measures it, from the stored time
  less the host's zone offset: the amount is a whole number from 1 to 10; without an
  earlier claim the claim is granted as day 1; at a measured age of 24 hours or more it
  is granted as the day after the latest one, or as day 1 when the latest was day 7 or
  more; at a measured age below 24 hours it is refused and the store is unchanged. A
  granted claim appends one check-in row and one transaction of type daily_checkin and
  adds the amount to the balance.
\<close>

lemma post_checkin_claim_rule:
  assumes "requireAuth s sess = Inr user" and "0 \<le> random" and "random < 1"
  shows
    "(let amount = rat_of_int (\<lfloor>random * 10\<rfloor> + 1);
          result = post_checkin_claim h s now_ms sess random;
          measured = (\<lambda>l. now_ms - (c_claimed_at l * 1000 - zone_offset h (c_claimed_at l)));
          granted = (\<lambda>day.
             fst result = Inr (amount, day)
             \<and> daily_checkin (snd result) = daily_checkin s @
                  [\<lparr>c_user_id = u_id user, c_day = day, c_amount = amount,
                    c_claimed_at = now_ms div 1000\<rparr>]
             \<and> transactions (snd result) = transactions s @
                  [\<lparr>t_user_id = u_id user, t_type = DailyCheckin, t_amount = amount,
                    t_reason = ''Day '' @ string_of_nat day @ '' daily check-in''\<rparr>]
             \<and> balance_of (snd result) (u_id user) = Some (u_balance user + amount))
      in 1 \<le> \<lfloor>random * 10\<rfloor> + 1 \<and> \<lfloor>random * 10\<rfloor> + 1 \<le> 10
         \<and> (getLastCheckin s (u_id user) = None \<longrightarrow> granted 1)
         \<and> (\<forall>l. getLastCheckin s (u_id user) = Some l
                 \<and> 24 * 60 * 60 * 1000 \<le> measured l \<longrightarrow>
               (if c_day l < 7 then granted (c_day l + 1) else granted 1))
         \<and> (\<forall>l. getLastCheckin s (u_id user) = Some l
                 \<and> measured l < 24 * 60 * 60 * 1000 \<longrightarrow>
               result = (Inl ClaimAfter24Hours, s)))"
proof -
  have pos: "\<bar>rat_of_int (\<lfloor>random * 10\<rfloor> + 1)\<bar> = rat_of_int (\<lfloor>random * 10\<rfloor> + 1)"
    using random_amount_range [OF assms(2,3)] by simp
  show ?thesis
    using random_amount_range [OF assms(2,3)] requireAuth_user [OF assms(1)] pos
    by (auto simp: post_checkin_claim_result [OF assms(1)] Let_def balance_of_def)
qed

text \<open>
  C9 asks that a claim made less than 24 hours after the user's latest one be refused.
  The route measures the age from the stored UTC text read as the host's wall-clock
  time. Bob's latest claim is stamped second 1000; at millisecond 69400000, 19 hours
  later, a host on UTC refuses his claim, and a host five and a half hours ahead of UTC
  grants it as day 4, with a new check-in row.
\<close>

theorem checkin_granted_after_19_hours:
  "requireAuth checkin_db (Some 2) = Inr bob
   \<and> map_option c_claimed_at (getLastCheckin checkin_db 2) = Some 1000
   \<and> (69400000 :: int) - 1000 * 1000 = 19 * 60 * 60 * 1000
   \<and> post_checkin_claim sample_host checkin_db 69400000 (Some 2) (37 / 100)
       = (Inl ClaimAfter24Hours, checkin_db)
   \<and> fst (post_checkin_claim kolkata_host checkin_db 69400000 (Some 2) (37 / 100)) = Inr (4, 4)
   \<and> map c_day (daily_checkin
        (snd (post_checkin_claim kolkata_host checkin_db 69400000 (Some 2) (37 / 100))))
       = [3, 6, 7, 4]
   \<and> balance_of (snd (post_checkin_claim kolkata_host checkin_db 69400000 (Some 2) (37 / 100))) 2
       = Some 4"
proof -
  have a: "requireAuth checkin_db (Some 2) = Inr bob"
    by (simp add: requireAuth_def findById_def checkin_db_def shop_defs)
  have l: "getLastCheckin checkin_db 2 =
             Some \<lparr>c_user_id = 2, c_day = 3, c_amount = 4, c_claimed_at = 1000\<rparr>"
    by (simp add: getLastCheckin_def checkin_db_def shop_defs)
  have f: "\<lfloor>37 / 10 :: rat\<rfloor> = 3"
    by (rule floor_unique; simp)
  have z: "zone_offset sample_host 1000 = 0" "zone_offset kolkata_host 1000 = 19800000"
    by (simp_all add: sample_host_def kolkata_host_def)
  have v: "u_id bob = 2" "u_balance bob = 0"
    "map c_day (daily_checkin checkin_db) = [3, 6, 7]"
    by (simp_all add: checkin_db_def shop_defs)
  have utc: "post_checkin_claim sample_host checkin_db 69400000 (Some 2) (37 / 100)
       = (Inl ClaimAfter24Hours, checkin_db)"
    by (simp add: post_checkin_claim_result [OF a] l z v Let_def)
  have fb: "findById checkin_db 2 = Some bob"
    by (simp add: findById_def checkin_db_def shop_defs)
  have res: "post_checkin_claim kolkata_host checkin_db 69400000 (Some 2) (37 / 100) =
     (Inr (4, 4),
      (update_user 2 (\<lambda>u. u\<lparr>u_balance := u_balance u + 4\<rparr>)
         (checkin_db\<lparr>daily_checkin := daily_checkin checkin_db @
              [\<lparr>c_user_id = 2, c_day = 4, c_amount = 4, c_claimed_at = 69400\<rparr>]\<rparr>))
      \<lparr>transactions := transactions checkin_db @
         [\<lparr>t_user_id = 2, t_type = DailyCheckin, t_amount = 4,
           t_reason = ''Day '' @ string_of_nat 4 @ '' daily check-in''\<rparr>]\<rparr>)"
    by (simp add: post_checkin_claim_result [OF a] l z f v Let_def)
  have ist: "fst (post_checkin_claim kolkata_host checkin_db 69400000 (Some 2) (37 / 100))
               = Inr (4, 4)
     \<and> map c_day (daily_checkin
          (snd (post_checkin_claim kolkata_host checkin_db 69400000 (Some 2) (37 / 100))))
         = [3, 6, 7, 4]
     \<and> balance_of (snd (post_checkin_claim kolkata_host checkin_db 69400000 (Some 2) (37 / 100))) 2
         = Some 4"
    unfolding res by (simp add: balance_of_def fb v)
  show ?thesis using a l utc ist by simp
qed

section \<open>Balance against ledger\<close>

text \<open>
  One call of updateBalance keeps a balance equal to the signed sum of the user's
  transactions when the sign of the amount agrees with the direction of the type.
\<close>

lemma ledger_sum_non_txn [simp]:
  "ledger_sum (update_user uid f s) k = ledger_sum s k"
  by (simp add: ledger_sum_def)

lemma updateBalance_keeps_ledger:
  assumes "balance_of s k = Some (ledger_sum s k)"
    and "if ty = Withdrawal \<or> ty = AdminDebit then a \<le> 0 else 0 \<le> a"
  shows "balance_of (snd (updateBalance s uid a ty rs)) k =
           Some (ledger_sum (snd (updateBalance s uid a ty rs)) k)"
proof (cases "findById s uid")
  case None
  then show ?thesis using assms(1) by (simp add: updateBalance_absent)
next
  case (Some u)
  then show ?thesis
    using assms
    by (auto simp: updateBalance_known balance_of_def ledger_sum_def signed_amount_def
          split: if_splits)
qed

text \<open>
  C3 asks that every balance equal the signed sum of the user's transaction records
  after every operation, bulk bonus included. userDb.addBulkBonus records every amount
  under the type admin_credit: with the amount -10, which the route accepts, Alice's
  balance falls from 200 to 190 while the signed sum of her records rises to 210. The
  single-user route, which picks admin_debit for such an amount, keeps the two equal.
\<close>

theorem bulk_bonus_negative_amount:
  "balance_of shop_db 1 = Some 200 \<and> ledger_sum shop_db 1 = 200
   \<and> fst (post_admin_bulk_bonus shop_db (Some (- 10)) []) = Inr 2
   \<and> balance_of (snd (post_admin_bulk_bonus shop_db (Some (- 10)) [])) 1 = Some 190
   \<and> ledger_sum (snd (post_admin_bulk_bonus shop_db (Some (- 10)) [])) 1 = 210
   \<and> fst (post_admin_user_balance shop_db 1 (Some (- 10)) []) = Inr ()
   \<and> balance_of (snd (post_admin_user_balance shop_db 1 (Some (- 10)) [])) 1 = Some 190
   \<and> ledger_sum (snd (post_admin_user_balance shop_db 1 (Some (- 10)) [])) 1 = 190"
  by (simp add: post_admin_bulk_bonus_def addBulkBonus_def post_admin_user_balance_def
        updateBalance_def insert_transaction_def update_user_def findById_def balance_of_def
        ledger_sum_def signed_amount_def shop_defs Let_def)

end
